theory Spec2Isabelle
  imports Main "HOL-Library.Word"
begin

unbundle bit_operations_syntax

section \<open>AS7343 spectrophotometer firmware: sensor driver and application layer\<close>

text \<open>
  The development embeds the two-wire bus adapter (\<^verbatim>\<open>AS7343_i2c_interface.cpp\<close>),
  the register-level driver of the AS7343 spectral sensor
  (\<^verbatim>\<open>Pimoroni_AS7343.cpp\<close>) and the application layer on top of it
  (\<^verbatim>\<open>spectro_app.cpp\<close>). The firmware is single threaded; every function is
  modelled as a function on one explicit machine state. C functions returning
  \<^verbatim>\<open>bool\<close> return a pair of the flag and the state; output parameters are
  returned next to the flag.
\<close>

type_synonym u8 = "8 word"
type_synonym u16 = "16 word"
type_synonym u32 = "32 word"

subsection \<open>Register map and enumerations (Pimoroni\_AS7343.h, spectro\_app.h)\<close>

definition AS7343_I2C_ADDRESS :: u8 where "AS7343_I2C_ADDRESS = 0x39"
definition AS7343_DEVICE_ID :: u8 where "AS7343_DEVICE_ID = 0x81"
definition AS7343_REG_ID :: u8 where "AS7343_REG_ID = 0x5A"
definition AS7343_REG_ATIME :: u8 where "AS7343_REG_ATIME = 0x81"
definition AS7343_REG_STATUS2 :: u8 where "AS7343_REG_STATUS2 = 0x90"
definition AS7343_REG_CFG0 :: u8 where "AS7343_REG_CFG0 = 0xBF"
definition AS7343_REG_CFG1 :: u8 where "AS7343_REG_CFG1 = 0xC6"
definition AS7343_REG_ASTEP_L :: u8 where "AS7343_REG_ASTEP_L = 0xD4"
definition AS7343_REG_ASTEP_H :: u8 where "AS7343_REG_ASTEP_H = 0xD5"
definition AS7343_REG_DATA0_L :: u8 where "AS7343_REG_DATA0_L = 0x95"
definition AS7343_STATUS2_AVALID_BIT :: u8 where "AS7343_STATUS2_AVALID_BIT = push_bit 6 1"
definition AS7343_NUM_CHANNELS :: nat where "AS7343_NUM_CHANNELS = 18"
definition AS7343_NUM_SORTED_CHANNELS :: nat where "AS7343_NUM_SORTED_CHANNELS = 12"

datatype AS7343_RegBank_t = AS7343_REG_BANK_0 | AS7343_REG_BANK_1

datatype AS7343_Channel_t =
    AS7343_CH_BLUE_FZ_450NM
  | AS7343_CH_GREEN_FY_555NM
  | AS7343_CH_ORANGE_FXL_600NM
  | AS7343_CH_NIR_855NM
  | AS7343_CH_VIS_1
  | AS7343_CH_FD_1
  | AS7343_CH_DARK_BLUE_F2_425NM
  | AS7343_CH_LIGHT_BLUE_F3_475NM
  | AS7343_CH_BLUE_F4_515NM
  | AS7343_CH_BROWN_F6_640NM
  | AS7343_CH_VIS_2
  | AS7343_CH_FD_2
  | AS7343_CH_PURPLE_F1_405NM
  | AS7343_CH_RED_F7_690NM
  | AS7343_CH_DARK_RED_F8_745NM
  | AS7343_CH_GREEN_F5_550NM
  | AS7343_CH_VIS_3
  | AS7343_CH_FD_3

text \<open>The numeric value of an enumerator: its position in the declaration.\<close>

fun ch_index :: "AS7343_Channel_t \<Rightarrow> nat" where
  "ch_index AS7343_CH_BLUE_FZ_450NM = 0"
| "ch_index AS7343_CH_GREEN_FY_555NM = 1"
| "ch_index AS7343_CH_ORANGE_FXL_600NM = 2"
| "ch_index AS7343_CH_NIR_855NM = 3"
| "ch_index AS7343_CH_VIS_1 = 4"
| "ch_index AS7343_CH_FD_1 = 5"
| "ch_index AS7343_CH_DARK_BLUE_F2_425NM = 6"
| "ch_index AS7343_CH_LIGHT_BLUE_F3_475NM = 7"
| "ch_index AS7343_CH_BLUE_F4_515NM = 8"
| "ch_index AS7343_CH_BROWN_F6_640NM = 9"
| "ch_index AS7343_CH_VIS_2 = 10"
| "ch_index AS7343_CH_FD_2 = 11"
| "ch_index AS7343_CH_PURPLE_F1_405NM = 12"
| "ch_index AS7343_CH_RED_F7_690NM = 13"
| "ch_index AS7343_CH_DARK_RED_F8_745NM = 14"
| "ch_index AS7343_CH_GREEN_F5_550NM = 15"
| "ch_index AS7343_CH_VIS_3 = 16"
| "ch_index AS7343_CH_FD_3 = 17"

datatype AS7343_Gain_t =
    AS7343_GAIN_0_5X | AS7343_GAIN_1X | AS7343_GAIN_2X | AS7343_GAIN_4X
  | AS7343_GAIN_8X | AS7343_GAIN_16X | AS7343_GAIN_32X | AS7343_GAIN_64X
  | AS7343_GAIN_128X | AS7343_GAIN_256X | AS7343_GAIN_512X | AS7343_GAIN_1024X
  | AS7343_GAIN_2048X

fun gain_code :: "AS7343_Gain_t \<Rightarrow> u8" where
  "gain_code AS7343_GAIN_0_5X = 0x00"
| "gain_code AS7343_GAIN_1X = 1"
| "gain_code AS7343_GAIN_2X = 2"
| "gain_code AS7343_GAIN_4X = 3"
| "gain_code AS7343_GAIN_8X = 4"
| "gain_code AS7343_GAIN_16X = 5"
| "gain_code AS7343_GAIN_32X = 6"
| "gain_code AS7343_GAIN_64X = 7"
| "gain_code AS7343_GAIN_128X = 8"
| "gain_code AS7343_GAIN_256X = 9"
| "gain_code AS7343_GAIN_512X = 10"
| "gain_code AS7343_GAIN_1024X = 11"
| "gain_code AS7343_GAIN_2048X = 12"

text \<open>
  The two application enumerations are kept as the integers the C++ switch statements
  compare, because both switches have a \<^verbatim>\<open>default\<close> branch for values that
  are none of the enumerators.
\<close>

type_synonym SpectroAppMode_t = int
type_synonym SpectroPrecisionMode_t = int

definition SPECTRO_APP_MODE_DATA_LOG :: SpectroAppMode_t where "SPECTRO_APP_MODE_DATA_LOG = 0"
definition SPECTRO_APP_MODE_INFER_LOCAL :: SpectroAppMode_t where "SPECTRO_APP_MODE_INFER_LOCAL = 1"
definition SPECTRO_APP_MODE_INFER_PC :: SpectroAppMode_t where "SPECTRO_APP_MODE_INFER_PC = 2"

definition SPECTRO_PRECISION_LOW :: SpectroPrecisionMode_t where "SPECTRO_PRECISION_LOW = 0"
definition SPECTRO_PRECISION_MEDIUM :: SpectroPrecisionMode_t where "SPECTRO_PRECISION_MEDIUM = 1"
definition SPECTRO_PRECISION_HIGH :: SpectroPrecisionMode_t where "SPECTRO_PRECISION_HIGH = 2"

record SpectroMeasurement_t =
  raw :: "u16 list"
  sorted :: "u16 list"

subsection \<open>Machine state\<close>

text \<open>
  What the Wire library reports in one bus transaction: the device acknowledges and
  delivers what is asked; or the address phase is not acknowledged
  (\<^verbatim>\<open>Wire.endTransmission\<close> returns an error code); or the address phase is
  acknowledged but a read delivers at most the given number of bytes.
\<close>

datatype wire_outcome = Acked | Addr_Nack | Short_Read u8

text \<open>
  One record holds the static variables of the two translation units
  (\<open>s_dataReadyTimeoutMs\<close>, \<open>s_appMode\<close>, \<open>s_precMode\<close>), the serial port and the
  sensor on the two-wire bus as the firmware can observe it:
  \<^item> \<open>regs\<close> is the register file of the sensor; a successful write stores into it;
  \<^item> \<open>txn\<close> counts the calls of the bus adapter so far, one transaction each, and
    \<open>wire n\<close> is the outcome of transaction number \<open>n\<close>;
  \<^item> \<open>sense n r\<close> is what the measurement engine presents in the status and data
    registers when transaction \<open>n\<close> reads register \<open>r\<close>;
  \<^item> \<open>wlog\<close> lists the successful register writes, oldest first;
  \<^item> \<open>clock k\<close> is the value the \<open>k\<close>-th call of \<^verbatim>\<open>millis()\<close> returns, and
    \<open>ticks\<close> counts the calls made so far.
\<close>

record machine =
  regs :: "u8 \<Rightarrow> u8"
  txn :: nat
  wire :: "nat \<Rightarrow> wire_outcome"
  sense :: "nat \<Rightarrow> u8 \<Rightarrow> u8"
  wlog :: "(u8 \<times> u8) list"
  ticks :: nat
  clock :: "nat \<Rightarrow> u32"
  s_dataReadyTimeoutMs :: u16
  s_appMode :: SpectroAppMode_t
  s_precMode :: SpectroPrecisionMode_t
  serial_out :: string
  serial_in :: string

text \<open>Transaction \<open>n\<close> is not carried out cleanly.\<close>

definition nack :: "machine \<Rightarrow> nat \<Rightarrow> bool" where
  "nack m n \<longleftrightarrow> wire m n \<noteq> Acked"

definition millis :: "machine \<Rightarrow> u32 \<times> machine" where
  "millis m = (clock m (ticks m), m\<lparr>ticks := Suc (ticks m)\<rparr>)"

subsection \<open>Serial port (Arduino core)\<close>

text \<open>
  The serial port is the stream of characters written so far and the characters waiting
  in the receive buffer. \<^verbatim>\<open>Serial.print\<close> of an unsigned number writes its decimal
  digits, \<^verbatim>\<open>Serial.println\<close> ends the line with carriage return and line feed.
\<close>

function dec_digits :: "nat \<Rightarrow> string" where
  "dec_digits n =
     (if n < 10 then [''0123456789'' ! n]
      else dec_digits (n div 10) @ [''0123456789'' ! (n mod 10)])"
  by pat_completeness auto
termination
  by (relation "measure (\<lambda>n. n)") auto

definition Serial_print :: "string \<Rightarrow> machine \<Rightarrow> machine" where
  "Serial_print s m = m\<lparr>serial_out := serial_out m @ s\<rparr>"

definition Serial_print_u16 :: "u16 \<Rightarrow> machine \<Rightarrow> machine" where
  "Serial_print_u16 v m = Serial_print (dec_digits (unat v)) m"

definition Serial_println :: "string \<Rightarrow> machine \<Rightarrow> machine" where
  "Serial_println s m = Serial_print (s @ [CHR 0x0D, CHR 0x0A]) m"

definition Serial_available :: "machine \<Rightarrow> bool" where
  "Serial_available m \<longleftrightarrow> serial_in m \<noteq> []"

text \<open>
  \<^verbatim>\<open>Serial.readStringUntil\<close> takes the buffered characters up to the terminator and
  discards the terminator; without a terminator it takes all of them.
\<close>

definition Serial_readStringUntil :: "char \<Rightarrow> machine \<Rightarrow> string \<times> machine" where
  "Serial_readStringUntil t m =
     (takeWhile (\<lambda>c. c \<noteq> t) (serial_in m),
      m\<lparr>serial_in := drop 1 (dropWhile (\<lambda>c. c \<noteq> t) (serial_in m))\<rparr>)"

definition isspace :: "char \<Rightarrow> bool" where
  "isspace c \<longleftrightarrow> c \<in> {CHR '' '', CHR 0x09, CHR 0x0A, CHR 0x0B, CHR 0x0C, CHR 0x0D}"

definition String_trim :: "string \<Rightarrow> string" where
  "String_trim s = rev (dropWhile isspace (rev (dropWhile isspace s)))"

subsection \<open>Register bus adapter (AS7343\_i2c\_interface.cpp)\<close>

text \<open>
  Registers driven by the measurement engine: STATUS2 and the 36 data bytes
  \<open>0x95 .. 0xB8\<close>. Every other register is plain storage.
\<close>

definition hw_driven :: "u8 \<Rightarrow> bool" where
  "hw_driven r \<longleftrightarrow> r = AS7343_REG_STATUS2 \<or> (0x95 \<le> r \<and> r \<le> 0xB8)"

definition reg_value :: "machine \<Rightarrow> u8 \<Rightarrow> u8" where
  "reg_value m r = (if hw_driven r then sense m (txn m) r else regs m r)"

text \<open>
  The Wire library, from the outcome of the current transaction.
  \<^verbatim>\<open>Wire.endTransmission\<close> returns 0 or an error code, \<^verbatim>\<open>Wire.requestFrom\<close>
  the number of bytes received, and the \<open>i\<close>-th \<^verbatim>\<open>Wire.read\<close> after it the
  \<open>i\<close>-th received byte, or \<open>-1\<close> (stored as \<open>0xFF\<close>) when no byte is left. The
  sensor bursts from ascending register addresses. The bus has this one device; the
  address is passed on as in the source and selects nothing. The identity registers of
  bank 1 (\<open>0x58 .. 0x66\<close>) and the registers of bank 0 (\<open>0x80\<close> and above) have
  disjoint addresses and share the one register file; the selected bank is visible as
  bit 4 of CFG0 only.
\<close>

definition Wire_endTransmission :: "machine \<Rightarrow> u8" where
  "Wire_endTransmission m = (if wire m (txn m) = Addr_Nack then 2 else 0)"

definition Wire_requestFrom :: "u8 \<Rightarrow> u8 \<Rightarrow> machine \<Rightarrow> u8" where
  "Wire_requestFrom dev_address quantity m =
     (case wire m (txn m) of
        Acked \<Rightarrow> quantity
      | Addr_Nack \<Rightarrow> quantity
      | Short_Read k \<Rightarrow> min k quantity)"

definition Wire_read :: "u8 \<Rightarrow> u8 \<Rightarrow> nat \<Rightarrow> machine \<Rightarrow> u8" where
  "Wire_read reg n i m = (if i < unat n then reg_value m (reg + of_nat i) else 0xFF)"

text \<open>The registers and the write log after a burst write of the given bytes.\<close>

fun burst_store :: "u8 \<Rightarrow> u8 list \<Rightarrow> (u8 \<Rightarrow> u8) \<Rightarrow> (u8 \<Rightarrow> u8)" where
  "burst_store reg [] f = f"
| "burst_store reg (b # bs) f = burst_store (reg + 1) bs (f(reg := b))"

fun burst_log :: "u8 \<Rightarrow> u8 list \<Rightarrow> (u8 \<times> u8) list" where
  "burst_log reg [] = []"
| "burst_log reg (b # bs) = (reg, b) # burst_log (reg + 1) bs"

definition AS7343_i2c_write :: "u8 \<Rightarrow> u8 \<Rightarrow> u8 list \<Rightarrow> nat \<Rightarrow> machine \<Rightarrow> bool \<times> machine" where
  "AS7343_i2c_write dev_address reg data len m =
     (if Wire_endTransmission m = 0
      then (True, m\<lparr>txn := Suc (txn m),
                     regs := burst_store reg (take len data) (regs m),
                     wlog := wlog m @ burst_log reg (take len data)\<rparr>)
      else (False, m\<lparr>txn := Suc (txn m)\<rparr>))"

text \<open>
  \<^verbatim>\<open>AS7343_i2c_read\<close>: silent failure when the address phase fails; when fewer bytes
  arrive than the length narrowed to 8 bits, the error line on the serial port and
  failure; else the bytes read. The bytes are returned, \<open>None\<close> on failure.
\<close>

definition AS7343_i2c_read :: "u8 \<Rightarrow> u8 \<Rightarrow> nat \<Rightarrow> machine \<Rightarrow> u8 list option \<times> machine" where
  "AS7343_i2c_read dev_address reg len m =
     (if Wire_endTransmission m \<noteq> 0 then (None, m\<lparr>txn := Suc (txn m)\<rparr>)
      else if Wire_requestFrom dev_address (of_nat len) m \<noteq> of_nat len then
        (None,
         Serial_println '' bytes''
           (Serial_print (dec_digits (unat (Wire_requestFrom dev_address (of_nat len) m)))
              (Serial_print '' bytes but received ''
                 (Serial_print (dec_digits len)
                    (Serial_print ''Error: Requested '' (m\<lparr>txn := Suc (txn m)\<rparr>))))))
      else
        (Some (map (\<lambda>i. Wire_read reg (Wire_requestFrom dev_address (of_nat len) m) i m)
                 [0..<len]),
         m\<lparr>txn := Suc (txn m)\<rparr>))"

definition AS7343_i2c_write_reg :: "u8 \<Rightarrow> u8 \<Rightarrow> u8 \<Rightarrow> machine \<Rightarrow> bool \<times> machine" where
  "AS7343_i2c_write_reg dev_address reg v m = AS7343_i2c_write dev_address reg [v] 1 m"

definition AS7343_i2c_read_reg :: "u8 \<Rightarrow> u8 \<Rightarrow> machine \<Rightarrow> u8 option \<times> machine" where
  "AS7343_i2c_read_reg dev_address reg m =
     (case AS7343_i2c_read dev_address reg 1 m of
        (None, m1) \<Rightarrow> (None, m1)
      | (Some bytes, m1) \<Rightarrow> (Some (bytes ! 0), m1))"

text \<open>
  Transaction \<open>n\<close>, taken as a read of \<open>len\<close> bytes, fails; and what a failed read
  writes to the serial port.
\<close>

definition read_fails :: "machine \<Rightarrow> nat \<Rightarrow> nat \<Rightarrow> bool" where
  "read_fails m n len =
     (case wire m n of
        Acked \<Rightarrow> False
      | Addr_Nack \<Rightarrow> True
      | Short_Read k \<Rightarrow> min k (of_nat len) \<noteq> of_nat len)"

definition read_error :: "machine \<Rightarrow> nat \<Rightarrow> nat \<Rightarrow> string" where
  "read_error m n len =
     (case wire m n of
        Acked \<Rightarrow> []
      | Addr_Nack \<Rightarrow> []
      | Short_Read k \<Rightarrow>
          ''Error: Requested '' @ dec_digits len @ '' bytes but received '' @
          dec_digits (unat (min k (of_nat len :: u8))) @ '' bytes'' @ [CHR 0x0D, CHR 0x0A])"

subsection \<open>Sensor driver\<close>

definition AS7343_set_reg_bank :: "AS7343_RegBank_t \<Rightarrow> machine \<Rightarrow> bool \<times> machine" where
  "AS7343_set_reg_bank bank m =
     (case AS7343_i2c_read_reg AS7343_I2C_ADDRESS AS7343_REG_CFG0 m of
        (None, m1) \<Rightarrow> (False, m1)
      | (Some cfg0, m1) \<Rightarrow>
          (case AS7343_i2c_write_reg AS7343_I2C_ADDRESS AS7343_REG_CFG0
                  (if bank = AS7343_REG_BANK_1 then cfg0 OR push_bit 4 1
                   else cfg0 AND NOT (push_bit 4 1)) m1 of
             (ok, m2) \<Rightarrow> if \<not> ok then (False, m2) else (True, m2)))"

text \<open>The bank the device is in: bit 4 of CFG0.\<close>

definition reg_bank :: "machine \<Rightarrow> AS7343_RegBank_t" where
  "reg_bank m = (if bit (regs m AS7343_REG_CFG0) 4 then AS7343_REG_BANK_1 else AS7343_REG_BANK_0)"

definition AS7343_is_connected :: "machine \<Rightarrow> bool \<times> machine" where
  "AS7343_is_connected m =
     (case AS7343_set_reg_bank AS7343_REG_BANK_1 m of
        (ok1, m1) \<Rightarrow>
          if \<not> ok1 then (False, m1)
          else (case AS7343_i2c_read_reg AS7343_I2C_ADDRESS AS7343_REG_ID m1 of
                  (None, m2) \<Rightarrow> (False, m2)
                | (Some ident, m2) \<Rightarrow>
                    (case AS7343_set_reg_bank AS7343_REG_BANK_0 m2 of
                       (ok3, m3) \<Rightarrow>
                         if \<not> ok3 then (False, m3)
                         else (ident = AS7343_DEVICE_ID, m3))))"

definition AS7343_set_gain :: "AS7343_Gain_t \<Rightarrow> machine \<Rightarrow> bool \<times> machine" where
  "AS7343_set_gain gain m =
     (case AS7343_set_reg_bank AS7343_REG_BANK_0 m of
        (ok1, m1) \<Rightarrow>
          if \<not> ok1 then (False, m1)
          else (case AS7343_i2c_read_reg AS7343_I2C_ADDRESS AS7343_REG_CFG1 m1 of
                  (None, m2) \<Rightarrow> (False, m2)
                | (Some cfg1, m2) \<Rightarrow>
                    (case AS7343_i2c_write_reg AS7343_I2C_ADDRESS AS7343_REG_CFG1
                            ((cfg1 AND NOT 0x1F) OR (gain_code gain AND 0x1F)) m2 of
                       (ok3, m3) \<Rightarrow> if \<not> ok3 then (False, m3) else (True, m3))))"

definition AS7343_set_integration_time :: "u8 \<Rightarrow> u16 \<Rightarrow> machine \<Rightarrow> bool \<times> machine" where
  "AS7343_set_integration_time atime astep m =
     (case AS7343_set_reg_bank AS7343_REG_BANK_0 m of
        (ok1, m1) \<Rightarrow>
          if \<not> ok1 then (False, m1)
          else (case AS7343_i2c_write_reg AS7343_I2C_ADDRESS AS7343_REG_ATIME atime m1 of
                  (ok2, m2) \<Rightarrow>
                    if \<not> ok2 then (False, m2)
                    else (case AS7343_i2c_write_reg AS7343_I2C_ADDRESS 0xD4 (ucast (astep AND 0xFF)) m2 of
                            (ok3, m3) \<Rightarrow>
                              if \<not> ok3 then (False, m3)
                              else (case AS7343_i2c_write_reg AS7343_I2C_ADDRESS 0xD5
                                           (ucast (drop_bit 8 astep AND 0xFF)) m3 of
                                      (ok4, m4) \<Rightarrow>
                                        if \<not> ok4 then (False, m4) else (True, m4)))))"

definition AS7343_set_data_ready_timeout :: "u16 \<Rightarrow> machine \<Rightarrow> machine" where
  "AS7343_set_data_ready_timeout timeout_ms m = m\<lparr>s_dataReadyTimeoutMs := timeout_ms\<rparr>"

text \<open>
  \<^verbatim>\<open>AS7343_wait_data_ready\<close>: the body of the \<^verbatim>\<open>do ... while\<close> loop, one
  iteration per unfolding. Nothing bounds the number of iterations but the clock, so the
  loop is a partial function: \<open>None\<close> stands for a loop that never exits. The elapsed
  time is the 32-bit difference of two clock values narrowed to 16 bits, as the cast in
  the loop condition does.
\<close>

partial_function (option) wait_data_ready_loop :: "u32 \<Rightarrow> machine \<Rightarrow> (bool \<times> machine) option" where
  "wait_data_ready_loop start m =
     (case AS7343_i2c_read_reg AS7343_I2C_ADDRESS AS7343_REG_STATUS2 m of
        (None, m1) \<Rightarrow> Some (False, m1)
      | (Some status2, m1) \<Rightarrow>
          if status2 AND AS7343_STATUS2_AVALID_BIT \<noteq> 0 then Some (True, m1)
          else (case millis m1 of
                  (now, m2) \<Rightarrow>
                    if (ucast (now - start) :: u16) < s_dataReadyTimeoutMs m2
                    then wait_data_ready_loop start m2
                    else Some (False, m2)))"

definition AS7343_wait_data_ready :: "machine \<Rightarrow> (bool \<times> machine) option" where
  "AS7343_wait_data_ready m =
     (case millis m of
        (start, m0) \<Rightarrow>
          (case AS7343_set_reg_bank AS7343_REG_BANK_0 m0 of
             (ok, m1) \<Rightarrow> if \<not> ok then Some (False, m1) else wait_data_ready_loop start m1))"

text \<open>
  The \<^verbatim>\<open>for\<close> loop of \<^verbatim>\<open>AS7343_read_all_channels\<close>, entered with the loop
  counter, the register address and the caller's buffer. A failed burst leaves the loop
  with \<open>False\<close> and the buffer as filled so far.
\<close>

function read_channels_loop :: "nat \<Rightarrow> u8 \<Rightarrow> u16 list \<Rightarrow> machine \<Rightarrow> bool \<times> u16 list \<times> machine" where
  "read_channels_loop i reg data m =
     (if i < AS7343_NUM_CHANNELS then
        (case AS7343_i2c_read AS7343_I2C_ADDRESS reg 2 m of
           (None, m1) \<Rightarrow> (False, data, m1)
         | (Some bytes, m1) \<Rightarrow>
             read_channels_loop (i + 1) (reg + 2)
               (data[i := push_bit 8 (ucast (bytes ! 1)) OR ucast (bytes ! 0)]) m1)
      else (True, data, m))"
  by pat_completeness auto
termination
  by (relation "measure (\<lambda>(i, reg, data, m). AS7343_NUM_CHANNELS - i)") auto

text \<open>
  A pointer parameter is an option: \<open>None\<close> is the null pointer, \<open>Some x\<close> points to
  an object with content \<open>x\<close>. The content after the call is returned in the same form.
\<close>

definition AS7343_read_all_channels ::
  "u16 list option \<Rightarrow> nat \<Rightarrow> machine \<Rightarrow> (bool \<times> u16 list option \<times> machine) option" where
  "AS7343_read_all_channels data len m =
     (case data of
        None \<Rightarrow> Some (False, None, m)
      | Some buf \<Rightarrow>
          if len < AS7343_NUM_CHANNELS then Some (False, data, m)
          else (case AS7343_set_reg_bank AS7343_REG_BANK_0 m of
                  (ok1, m1) \<Rightarrow>
                    if \<not> ok1 then Some (False, data, m1)
                    else (case AS7343_wait_data_ready m1 of
                            None \<Rightarrow> None
                          | Some (ok2, m2) \<Rightarrow>
                              if \<not> ok2 then Some (False, data, m2)
                              else (case read_channels_loop 0 AS7343_REG_DATA0_L buf m2 of
                                      (ok3, buf', m3) \<Rightarrow> Some (ok3, Some buf', m3)))))"

text \<open>
  \<^verbatim>\<open>AS7343_get_sorted_spectral_channels\<close>. The local array \<^verbatim>\<open>raw\<close> is not
  initialised in the source; its indeterminate content is the parameter \<open>raw_uninit\<close>.
\<close>

definition AS7343_get_sorted_spectral_channels ::
  "u16 list \<Rightarrow> u16 list option \<Rightarrow> machine \<Rightarrow> (bool \<times> u16 list option \<times> machine) option" where
  "AS7343_get_sorted_spectral_channels raw_uninit data11 m =
     (case data11 of
        None \<Rightarrow> Some (False, None, m)
      | Some out \<Rightarrow>
          (case AS7343_read_all_channels (Some raw_uninit) AS7343_NUM_CHANNELS m of
             None \<Rightarrow> None
           | Some (ok, None, m1) \<Rightarrow> Some (False, data11, m1)
           | Some (ok, Some rw, m1) \<Rightarrow>
               if \<not> ok then Some (False, data11, m1)
               else Some (True,
                 Some (out[0 := rw ! ch_index AS7343_CH_PURPLE_F1_405NM,
                           1 := rw ! ch_index AS7343_CH_DARK_BLUE_F2_425NM,
                           2 := rw ! ch_index AS7343_CH_BLUE_FZ_450NM,
                           3 := rw ! ch_index AS7343_CH_LIGHT_BLUE_F3_475NM,
                           4 := rw ! ch_index AS7343_CH_BLUE_F4_515NM,
                           5 := rw ! ch_index AS7343_CH_GREEN_F5_550NM,
                           6 := rw ! ch_index AS7343_CH_GREEN_FY_555NM,
                           7 := rw ! ch_index AS7343_CH_ORANGE_FXL_600NM,
                           8 := rw ! ch_index AS7343_CH_BROWN_F6_640NM,
                           9 := rw ! ch_index AS7343_CH_RED_F7_690NM,
                           10 := rw ! ch_index AS7343_CH_DARK_RED_F8_745NM,
                           11 := rw ! ch_index AS7343_CH_NIR_855NM]), m1)))"

subsection \<open>Application layer (spectro\_app.cpp)\<close>

definition spectro_app_set_mode :: "SpectroAppMode_t \<Rightarrow> machine \<Rightarrow> machine" where
  "spectro_app_set_mode mode m = m\<lparr>s_appMode := mode\<rparr>"

text \<open>The return value of \<^verbatim>\<open>AS7343_set_integration_time\<close> is discarded, as in the source.\<close>

definition spectro_app_set_precision_mode :: "SpectroPrecisionMode_t \<Rightarrow> machine \<Rightarrow> machine" where
  "spectro_app_set_precision_mode prec m =
     (if prec = SPECTRO_PRECISION_LOW then
        AS7343_set_data_ready_timeout 50
          (snd (AS7343_set_integration_time 0x00 999 (m\<lparr>s_precMode := prec\<rparr>)))
      else if prec = SPECTRO_PRECISION_MEDIUM then
        AS7343_set_data_ready_timeout 500
          (snd (AS7343_set_integration_time 0x01 20000 (m\<lparr>s_precMode := prec\<rparr>)))
      else
        AS7343_set_data_ready_timeout 800
          (snd (AS7343_set_integration_time 0x00 65534 (m\<lparr>s_precMode := prec\<rparr>))))"

definition spectro_app_acquire ::
  "u16 list \<Rightarrow> SpectroMeasurement_t option \<Rightarrow> machine
     \<Rightarrow> (bool \<times> SpectroMeasurement_t option \<times> machine) option" where
  "spectro_app_acquire raw_uninit meas m =
     (case meas of
        None \<Rightarrow> Some (False, None, m)
      | Some ms \<Rightarrow>
          (case AS7343_read_all_channels (Some (raw ms)) AS7343_NUM_CHANNELS m of
             None \<Rightarrow> None
           | Some (ok1, None, m1) \<Rightarrow> Some (False, meas, m1)
           | Some (ok1, Some buf, m1) \<Rightarrow>
               if \<not> ok1 then Some (False, Some (ms\<lparr>raw := buf\<rparr>), m1)
               else (case AS7343_get_sorted_spectral_channels raw_uninit (Some (sorted ms)) m1 of
                       None \<Rightarrow> None
                     | Some (ok2, None, m2) \<Rightarrow> Some (False, Some (ms\<lparr>raw := buf\<rparr>), m2)
                     | Some (ok2, Some srt, m2) \<Rightarrow>
                         if \<not> ok2 then Some (False, Some (ms\<lparr>raw := buf, sorted := srt\<rparr>), m2)
                         else Some (True, Some (ms\<lparr>raw := buf, sorted := srt\<rparr>), m2))))"

text \<open>
  The print loop the three handlers share: the value of slot \<open>i\<close>, then a comma unless
  it is the last slot.
\<close>

function print_sorted_loop :: "nat \<Rightarrow> SpectroMeasurement_t \<Rightarrow> machine \<Rightarrow> machine" where
  "print_sorted_loop i ms m =
     (if i < AS7343_NUM_SORTED_CHANNELS then
        print_sorted_loop (i + 1) ms
          (if i < AS7343_NUM_SORTED_CHANNELS - 1
           then Serial_print '','' (Serial_print_u16 (sorted ms ! i) m)
           else Serial_print_u16 (sorted ms ! i) m)
      else m)"
  by pat_completeness auto
termination
  by (relation "measure (\<lambda>(i, ms, m). AS7343_NUM_SORTED_CHANNELS - i)") auto

definition spectro_app_handle_data_log :: "SpectroMeasurement_t option \<Rightarrow> machine \<Rightarrow> machine" where
  "spectro_app_handle_data_log meas m =
     (case meas of
        None \<Rightarrow> m
      | Some ms \<Rightarrow>
          Serial_println [] (print_sorted_loop 0 ms (Serial_print ''SORTED(405-855nm): '' m)))"

definition spectro_app_handle_infer_local :: "SpectroMeasurement_t option \<Rightarrow> machine \<Rightarrow> machine" where
  "spectro_app_handle_infer_local meas m =
     (case meas of
        None \<Rightarrow> m
      | Some ms \<Rightarrow>
          Serial_println []
            (print_sorted_loop 0 ms
               (Serial_print ''[spectro_app] Local inference stub. Inputs: '' m)))"

definition spectro_app_handle_infer_pc :: "SpectroMeasurement_t option \<Rightarrow> machine \<Rightarrow> machine" where
  "spectro_app_handle_infer_pc meas m =
     (case meas of
        None \<Rightarrow> m
      | Some ms \<Rightarrow>
          (case Serial_println [] (print_sorted_loop 0 ms (Serial_print ''MEAS,'' m)) of
             m1 \<Rightarrow>
               if Serial_available m1 then
                 (case Serial_readStringUntil (CHR 0x0A) m1 of
                    (line, m2) \<Rightarrow>
                      if length (String_trim line) > 0
                      then Serial_println (String_trim line)
                             (Serial_print ''[spectro_app] PC response: '' m2)
                      else m2)
               else m1))"

text \<open>
  \<^verbatim>\<open>spectro_app_run_once\<close>. The local \<^verbatim>\<open>meas\<close> is not initialised in the source;
  its indeterminate content is the parameter \<open>meas_uninit\<close>.
\<close>

definition spectro_app_run_once ::
  "SpectroMeasurement_t \<Rightarrow> u16 list \<Rightarrow> machine \<Rightarrow> machine option" where
  "spectro_app_run_once meas_uninit raw_uninit m =
     (case spectro_app_acquire raw_uninit (Some meas_uninit) m of
        None \<Rightarrow> None
      | Some (ok, meas, m1) \<Rightarrow>
          if \<not> ok then
            Some (Serial_println ''[spectro_app] ERROR: Failed to acquire measurement.'' m1)
          else if s_appMode m1 = SPECTRO_APP_MODE_DATA_LOG then
            Some (spectro_app_handle_data_log meas m1)
          else if s_appMode m1 = SPECTRO_APP_MODE_INFER_LOCAL then
            Some (spectro_app_handle_infer_local meas m1)
          else if s_appMode m1 = SPECTRO_APP_MODE_INFER_PC then
            Some (spectro_app_handle_infer_pc meas m1)
          else
            Some (spectro_app_handle_data_log meas m1))"

subsection \<open>Notions of the specification\<close>

text \<open>
  The sorted view the specification describes: the raw channels at the indices
  12, 6, 0, 7, 8, 15, 1, 2, 9, 13, 14, 3, in this order (F1, F2, FZ, F3, F4, F5, FY, FXL,
  F6, F7, F8, NIR).
\<close>

definition spec_sorted_view :: "u16 list \<Rightarrow> u16 list" where
  "spec_sorted_view rw =
     [rw ! 12, rw ! 6, rw ! 0, rw ! 7, rw ! 8, rw ! 15, rw ! 1, rw ! 2, rw ! 9, rw ! 13,
      rw ! 14, rw ! 3]"

text \<open>Strings joined by commas, with no comma after the last one.\<close>

fun comma_join :: "string list \<Rightarrow> string" where
  "comma_join [] = []"
| "comma_join [s] = s"
| "comma_join (s # t # ss) = s @ '','' @ comma_join (t # ss)"

definition csv_line :: "u16 list \<Rightarrow> string" where
  "csv_line vs = comma_join (map (\<lambda>v. dec_digits (unat v)) vs) @ [CHR 0x0D, CHR 0x0A]"

text \<open>
  The state the precision table asks for: bank 0 selected, ATIME written, then the low
  byte of ASTEP to ASTEP\_L, then its high byte to ASTEP\_H, the poll timeout and the
  precision mode stored, and nothing else changed.
\<close>

definition programmed ::
  "SpectroPrecisionMode_t \<Rightarrow> u8 \<Rightarrow> u16 \<Rightarrow> u16 \<Rightarrow> machine \<Rightarrow> machine" where
  "programmed prec atime astep timeout_ms m =
     m\<lparr>txn := txn m + 5,
       regs := (regs m)(AS7343_REG_CFG0 := regs m AS7343_REG_CFG0 AND NOT (push_bit 4 1),
                        AS7343_REG_ATIME := atime,
                        AS7343_REG_ASTEP_L := ucast astep,
                        AS7343_REG_ASTEP_H := ucast (drop_bit 8 astep)),
       wlog := wlog m @ [(AS7343_REG_CFG0, regs m AS7343_REG_CFG0 AND NOT (push_bit 4 1)),
                         (AS7343_REG_ATIME, atime),
                         (AS7343_REG_ASTEP_L, ucast astep),
                         (AS7343_REG_ASTEP_H, ucast (drop_bit 8 astep))],
       s_dataReadyTimeoutMs := timeout_ms,
       s_precMode := prec\<rparr>"

text \<open>Transaction \<open>n\<close> finds the AVALID bit of STATUS2 set.\<close>

definition poll_ready :: "machine \<Rightarrow> nat \<Rightarrow> bool" where
  "poll_ready m n \<longleftrightarrow> sense m n AS7343_REG_STATUS2 AND AS7343_STATUS2_AVALID_BIT \<noteq> 0"

text \<open>
  The time between clock readings \<open>k0\<close> and \<open>k\<close>: in full, by unsigned 32-bit
  subtraction, and narrowed to 16 bits as the loop condition does.
\<close>

definition elapsed32 :: "machine \<Rightarrow> nat \<Rightarrow> nat \<Rightarrow> nat" where
  "elapsed32 m k0 k = unat (clock m k - clock m k0)"

definition elapsed16 :: "machine \<Rightarrow> nat \<Rightarrow> nat \<Rightarrow> u16" where
  "elapsed16 m k0 k = ucast (clock m k - clock m k0)"

text \<open>
  \<open>bus_only m m'\<close>: the state \<open>m'\<close> differs from \<open>m\<close> at most in the register
  file, the write log, the two counters and the serial output; the serial output has
  only grown, and it is the same unless some transaction is a short read.
\<close>

definition bus_only :: "machine \<Rightarrow> machine \<Rightarrow> bool" where
  "bus_only m m' \<longleftrightarrow>
     wire m' = wire m \<and> sense m' = sense m \<and> clock m' = clock m \<and>
     s_dataReadyTimeoutMs m' = s_dataReadyTimeoutMs m \<and>
     s_appMode m' = s_appMode m \<and> s_precMode m' = s_precMode m \<and>
     serial_in m' = serial_in m \<and>
     (\<exists>printed. serial_out m' = serial_out m @ printed) \<and>
     ((\<forall>n k. wire m n \<noteq> Short_Read k) \<longrightarrow> serial_out m' = serial_out m)"

text \<open>
  What the Infer-PC handler writes after its measurement line: nothing if no inbound
  character is pending or the inbound line is blank, else the labelled, trimmed line.
\<close>

definition pc_response :: "string \<Rightarrow> string" where
  "pc_response inp =
     (if inp = [] \<or> String_trim (takeWhile (\<lambda>c. c \<noteq> CHR 0x0A) inp) = [] then []
      else ''[spectro_app] PC response: '' @
           String_trim (takeWhile (\<lambda>c. c \<noteq> CHR 0x0A) inp) @ [CHR 0x0D, CHR 0x0A])"

subsection \<open>Simulated scenarios\<close>

text \<open>
  The simulated bench: an idle sensor on a fault-free bus, a clock standing at 0, empty
  serial buffers and the static initialisers of the sources.
\<close>

definition bench :: machine where
  "bench = \<lparr>regs = (\<lambda>r. 0), txn = 0, wire = (\<lambda>n. Acked), sense = (\<lambda>n r. 0), wlog = [],
            ticks = 0, clock = (\<lambda>k. 0), s_dataReadyTimeoutMs = 100,
            s_appMode = SPECTRO_APP_MODE_DATA_LOG, s_precMode = SPECTRO_PRECISION_MEDIUM,
            serial_out = [], serial_in = []\<rparr>"

text \<open>The third bus transaction, the read of the identity register, is not acknowledged.\<close>

definition id_read_fails :: machine where
  "id_read_fails = bench\<lparr>wire := (\<lambda>n. if n = 2 then Addr_Nack else Acked)\<rparr>"

text \<open>Every register of the sensor holds \<open>0xFF\<close>.\<close>

definition high_bits_set :: machine where
  "high_bits_set = bench\<lparr>regs := (\<lambda>r. 0xFF)\<rparr>"

text \<open>Data is always ready and channel \<open>i\<close> reads \<open>i\<close>: the raw reading is 0, 1, ..., 17.\<close>

definition ramp_sensor :: machine where
  "ramp_sensor =
     bench\<lparr>sense := (\<lambda>n r. if r = 0x90 then 0x40
                            else if bit (r - 0x95) 0 then 0 else drop_bit 1 (r - 0x95))\<rparr>"

text \<open>
  Data is always ready and every channel reads 0, until the sensor finishes a new
  measurement before transaction 23: from then on channel 12 (F1) reads 1.
\<close>

definition drifting_sensor :: machine where
  "drifting_sensor =
     bench\<lparr>sense := (\<lambda>n r. if r = 0x90 then 0x40
                            else if r = 0xAD \<and> 23 \<le> n then 1 else 0)\<rparr>"

text \<open>
  The ramp sensor on a bus where transaction 14, the tenth burst of a read, delivers one
  byte of the two.
\<close>

definition tenth_burst_fails :: machine where
  "tenth_burst_fails = ramp_sensor\<lparr>wire := (\<lambda>n. if n = 14 then Short_Read 1 else Acked)\<rparr>"

text \<open>
  Timeout 50 ms. The first poll finds no data; the clock then reads 65536 ms more than
  at the start, and the second poll finds data ready.
\<close>

definition late_ready :: machine where
  "late_ready =
     bench\<lparr>sense := (\<lambda>n r. if r = 0x90 \<and> 3 \<le> n then 0x40 else 0),
           clock := (\<lambda>k. if k = 0 then 0 else 65536),
           s_dataReadyTimeoutMs := 50\<rparr>"

text \<open>Timeout 100 ms, one clock reading per millisecond, data ready at the third poll.\<close>

definition third_poll_ready :: machine where
  "third_poll_ready =
     bench\<lparr>sense := (\<lambda>n r. if r = 0x90 \<and> 4 \<le> n then 0x40 else 0),
           clock := (\<lambda>k. of_nat k)\<rparr>"

text \<open>Timeout 100 ms, 60 ms between clock readings, data never ready.\<close>

definition never_ready :: machine where
  "never_ready = bench\<lparr>clock := (\<lambda>k. 60 * of_nat k)\<rparr>"



text \<open>
  Every register holds \<open>0xAA\<close>, and the third transaction, the write of ATIME, is not
  acknowledged.
\<close>

definition atime_write_refused :: machine where
  "atime_write_refused =
     bench\<lparr>regs := (\<lambda>r. 0xAA), wire := (\<lambda>n. if n = 2 then Addr_Nack else Acked)\<rparr>"

text \<open>The ramp sensor with a mode value that is none of the three enumerators.\<close>

definition unknown_mode :: machine where
  "unknown_mode = ramp_sensor\<lparr>s_appMode := 7\<rparr>"

text \<open>Arbitrary contents for arrays that the source leaves uninitialised.\<close>

definition stale_raw :: "u16 list" where
  "stale_raw = [7, 7, 7, 7, 7, 7, 7, 7, 7, 7, 7, 7, 7, 7, 7, 7, 7, 7]"

definition stale_meas :: SpectroMeasurement_t where
  "stale_meas = \<lparr>raw = [8, 8, 8, 8, 8, 8, 8, 8, 8, 8, 8, 8, 8, 8, 8, 8, 8, 8],
                 sorted = [9, 9, 9, 9, 9, 9, 9, 9, 9, 9, 9, 9]\<rparr>"

definition example_meas :: SpectroMeasurement_t where
  "example_meas = \<lparr>raw = [0, 0, 0, 0, 0, 0, 0, 0, 0, 0, 0, 0, 0, 0, 0, 0, 0, 0],
                   sorted = [5, 10, 15, 20, 25, 30, 35, 40, 45, 50, 55, 60]\<rparr>"

text \<open>The measurement of the ramp sensor.\<close>

definition ramp_meas :: SpectroMeasurement_t where
  "ramp_meas = \<lparr>raw = [0, 1, 2, 3, 4, 5, 6, 7, 8, 9, 10, 11, 12, 13, 14, 15, 16, 17],
                sorted = [12, 6, 0, 7, 8, 15, 1, 2, 9, 13, 14, 3]\<rparr>"

text \<open>
  The bench after one and after two complete reads of 23 transactions each (two bank
  selections, one poll, 18 bursts).
\<close>

definition after_read :: "machine \<Rightarrow> machine" where
  "after_read m = m\<lparr>txn := 23, ticks := 1, regs := (\<lambda>r. 0)(0xBF := 0),
      wlog := [(0xBF, 0), (0xBF, 0)]\<rparr>"

definition after_two_reads :: "machine \<Rightarrow> machine" where
  "after_two_reads m = m\<lparr>txn := 46, ticks := 2, regs := (\<lambda>r. 0)(0xBF := 0),
      wlog := [(0xBF, 0), (0xBF, 0), (0xBF, 0), (0xBF, 0)]\<rparr>"

text \<open>The bench after the bank selection and after the wait for data of one read.\<close>

definition after_bank_select :: "machine \<Rightarrow> machine" where
  "after_bank_select m = m\<lparr>txn := 2, regs := (\<lambda>r. 0)(0xBF := 0), wlog := [(0xBF, 0)]\<rparr>"

definition after_wait :: "machine \<Rightarrow> machine" where
  "after_wait m = m\<lparr>txn := 5, ticks := 1, regs := (\<lambda>r. 0)(0xBF := 0),
      wlog := [(0xBF, 0), (0xBF, 0)]\<rparr>"

section \<open>Properties\<close>

lemmas reg_defs =
  AS7343_I2C_ADDRESS_def AS7343_DEVICE_ID_def AS7343_REG_ID_def AS7343_REG_ATIME_def AS7343_REG_STATUS2_def
  AS7343_REG_CFG0_def AS7343_REG_CFG1_def AS7343_REG_ASTEP_L_def AS7343_REG_ASTEP_H_def
  AS7343_REG_DATA0_L_def AS7343_STATUS2_AVALID_BIT_def AS7343_NUM_CHANNELS_def
  AS7343_NUM_SORTED_CHANNELS_def

lemmas mode_defs =
  SPECTRO_APP_MODE_DATA_LOG_def SPECTRO_APP_MODE_INFER_LOCAL_def SPECTRO_APP_MODE_INFER_PC_def
  SPECTRO_PRECISION_LOW_def SPECTRO_PRECISION_MEDIUM_def SPECTRO_PRECISION_HIGH_def

declare read_channels_loop.simps [simp del]
declare print_sorted_loop.simps [simp del]
declare dec_digits.simps [simp del]

lemmas drv_defs =
  AS7343_set_reg_bank_def AS7343_wait_data_ready_def AS7343_read_all_channels_def
  AS7343_get_sorted_spectral_channels_def millis_def

lemma list_update_Cons_numeral: "(x # xs)[numeral v := y] = x # xs[numeral v - 1 := y]"
  by (simp add: numeral_eq_Suc)

subsection \<open>Bus adapter\<close>

text \<open>The three adapter calls the driver makes, by the outcome of the transaction.\<close>

lemma i2c_read_reg_cases:
  "AS7343_i2c_read_reg d reg m =
     (if read_fails m (txn m) 1
      then (None, m\<lparr>txn := Suc (txn m), serial_out := serial_out m @ read_error m (txn m) 1\<rparr>)
      else (Some (reg_value m reg), m\<lparr>txn := Suc (txn m)\<rparr>))"
  by (cases "wire m (txn m)")
    (simp_all add: AS7343_i2c_read_reg_def AS7343_i2c_read_def Wire_endTransmission_def
      Wire_requestFrom_def Wire_read_def read_fails_def read_error_def Serial_print_def
      Serial_println_def)

lemma upt_0_2: "[0..<2] = [0, Suc 0]"
  by (simp add: numeral_2_eq_2)

lemma i2c_read_cases:
  "AS7343_i2c_read d reg 2 m =
     (if read_fails m (txn m) 2
      then (None, m\<lparr>txn := Suc (txn m), serial_out := serial_out m @ read_error m (txn m) 2\<rparr>)
      else (Some [reg_value m reg, reg_value m (reg + 1)], m\<lparr>txn := Suc (txn m)\<rparr>))"
  by (cases "wire m (txn m)")
    (simp_all add: AS7343_i2c_read_def Wire_endTransmission_def
      Wire_requestFrom_def Wire_read_def read_fails_def read_error_def Serial_print_def
      Serial_println_def upt_0_2)

lemma i2c_write_reg_cases:
  "AS7343_i2c_write_reg d reg v m =
     (if wire m (txn m) = Addr_Nack then (False, m\<lparr>txn := Suc (txn m)\<rparr>)
      else (True, m\<lparr>txn := Suc (txn m), regs := (regs m)(reg := v),
                     wlog := wlog m @ [(reg, v)]\<rparr>))"
  by (simp add: AS7343_i2c_write_reg_def AS7343_i2c_write_def Wire_endTransmission_def)

lemmas bus_defs =
  i2c_read_reg_cases i2c_read_cases i2c_write_reg_cases read_fails_def read_error_def
  reg_value_def hw_driven_def nack_def

lemmas sim_defs =
  wait_data_ready_loop.simps read_channels_loop.simps list_update_Cons_numeral
  bench_def bus_defs reg_defs drv_defs dec_digits.simps

lemma nack_update [simp]:
  "nack (m\<lparr>txn := a\<rparr>) = nack m" "nack (m\<lparr>regs := b\<rparr>) = nack m"
  "nack (m\<lparr>wlog := c\<rparr>) = nack m" "nack (m\<lparr>ticks := e\<rparr>) = nack m"
  "nack (m\<lparr>serial_out := f\<rparr>) = nack m" "nack (m\<lparr>s_precMode := g\<rparr>) = nack m"
  by (simp_all add: nack_def fun_eq_iff)

lemma acked: "\<not> nack m n \<Longrightarrow> wire m n = Acked"
  by (simp add: nack_def)

subsection \<open>Bank switching\<close>

lemma read_reg_plain:
  "AS7343_i2c_read_reg d r m = (Some v, m') \<Longrightarrow> \<not> hw_driven r \<Longrightarrow> v = regs m r \<and> regs m' = regs m"
  by (auto simp: i2c_read_reg_cases reg_value_def split: if_splits)

lemma write_reg_ok:
  "AS7343_i2c_write_reg d r v m = (True, m') \<Longrightarrow> regs m' = (regs m)(r := v)"
  by (auto simp: i2c_write_reg_cases split: if_splits)

lemma set_reg_bank_regs:
  "AS7343_set_reg_bank b m = (ok, m') \<Longrightarrow> r \<noteq> AS7343_REG_CFG0 \<Longrightarrow> regs m' r = regs m r"
  by (auto simp: AS7343_set_reg_bank_def i2c_read_reg_cases i2c_write_reg_cases
      split: if_splits prod.splits option.splits)

lemma cfg1_plain: "\<not> hw_driven AS7343_REG_CFG1"
  by (simp add: hw_driven_def reg_defs)

subsection \<open>What the driver leaves alone\<close>

lemma bus_only_refl: "bus_only m m"
  by (simp add: bus_only_def)

lemma bus_only_trans: "bus_only m m1 \<Longrightarrow> bus_only m1 m2 \<Longrightarrow> bus_only m m2"
  by (auto simp add: bus_only_def)

lemma read_error_quiet: "\<forall>n k. wire m n \<noteq> Short_Read k \<Longrightarrow> read_error m n len = []"
  by (cases "wire m n") (simp_all add: read_error_def)

lemma i2c_read_bus_only: "AS7343_i2c_read d r 2 m = (v, m') \<Longrightarrow> bus_only m m'"
  by (auto simp: i2c_read_cases bus_only_def read_error_quiet split: if_splits)

lemma i2c_read_reg_bus_only: "AS7343_i2c_read_reg d r m = (v, m') \<Longrightarrow> bus_only m m'"
  by (auto simp: i2c_read_reg_cases bus_only_def read_error_quiet split: if_splits)

lemma i2c_write_reg_bus_only: "AS7343_i2c_write_reg d r v m = (ok, m') \<Longrightarrow> bus_only m m'"
  by (auto simp: i2c_write_reg_cases bus_only_def split: if_splits)

lemma millis_bus_only: "millis m = (t, m') \<Longrightarrow> bus_only m m'"
  by (auto simp: millis_def bus_only_def)

lemma set_reg_bank_bus_only: "AS7343_set_reg_bank b m = (ok, m') \<Longrightarrow> bus_only m m'"
  unfolding AS7343_set_reg_bank_def
  by (auto split: prod.splits option.splits if_splits
      dest!: i2c_read_reg_bus_only i2c_write_reg_bus_only intro: bus_only_trans)

lemmas wait_loop_induct = wait_data_ready_loop.raw_induct[rotated 1, consumes 1, case_names step]

lemma wait_loop_bus_only: "wait_data_ready_loop start m = Some r \<Longrightarrow> bus_only m (snd r)"
proof (induct rule: wait_loop_induct)
  case (step loop start m r)
  note 1 = step
  obtain v m1 where rd: "AS7343_i2c_read_reg AS7343_I2C_ADDRESS AS7343_REG_STATUS2 m = (v, m1)"
    by (cases "AS7343_i2c_read_reg AS7343_I2C_ADDRESS AS7343_REG_STATUS2 m")
  note b1 = i2c_read_reg_bus_only[OF rd]
  show ?case
  proof (cases v)
    case None
    with 1(2) rd b1 show ?thesis by auto
  next
    case (Some status2)
    show ?thesis
    proof (cases "status2 AND AS7343_STATUS2_AVALID_BIT \<noteq> 0")
      case True
      with 1(2) rd Some b1 show ?thesis by auto
    next
      case False
      obtain now m2 where ml: "millis m1 = (now, m2)"
        by (cases "millis m1")
      note b2 = bus_only_trans[OF b1 millis_bus_only[OF ml]]
      show ?thesis
      proof (cases "(ucast (now - start) :: u16) < s_dataReadyTimeoutMs m2")
        case True
        with 1(2) rd Some False ml have "loop start m2 = Some r" by simp
        from bus_only_trans[OF b2 1(1)[OF this]] show ?thesis .
      next
        case F: False
        with 1(2) rd Some False ml b2 show ?thesis by auto
      qed
    qed
  qed
qed

lemma wait_data_ready_bus_only: "AS7343_wait_data_ready m = Some (ok, m') \<Longrightarrow> bus_only m m'"
  unfolding AS7343_wait_data_ready_def
  by (auto split: prod.splits if_splits
      dest!: millis_bus_only set_reg_bank_bus_only wait_loop_bus_only intro: bus_only_trans)

lemma read_channels_loop_bus_only:
  "read_channels_loop i reg data m = (ok, data', m') \<Longrightarrow> bus_only m m'"
proof (induction i reg data m rule: read_channels_loop.induct)
  case (1 i reg data m)
  show ?case
  proof (cases "i < AS7343_NUM_CHANNELS")
    case False
    with "1.prems" show ?thesis
      by (simp add: read_channels_loop.simps bus_only_refl)
  next
    case True
    obtain v m1 where rd: "AS7343_i2c_read AS7343_I2C_ADDRESS reg 2 m = (v, m1)"
      by (cases "AS7343_i2c_read AS7343_I2C_ADDRESS reg 2 m")
    show ?thesis
    proof (cases v)
      case None
      with "1.prems" True rd show ?thesis
        by (subst (asm) read_channels_loop.simps) (auto dest: i2c_read_bus_only)
    next
      case (Some bytes)
      with "1.prems" True rd
      have "read_channels_loop (i + 1) (reg + 2)
              (data[i := push_bit 8 (ucast (bytes ! 1)) OR ucast (bytes ! 0)]) m1 = (ok, data', m')"
        by (subst (asm) read_channels_loop.simps) simp
      from "1.IH"[OF True rd[unfolded Some, symmetric] refl this] i2c_read_bus_only[OF rd]
      show ?thesis by (rule bus_only_trans[rotated])
    qed
  qed
qed

lemma read_all_channels_bus_only:
  "AS7343_read_all_channels data len m = Some (ok, data', m') \<Longrightarrow> bus_only m m'"
  unfolding AS7343_read_all_channels_def
  by (auto split: prod.splits option.splits if_splits
      dest!: set_reg_bank_bus_only wait_data_ready_bus_only read_channels_loop_bus_only
      intro: bus_only_trans bus_only_refl)

lemma get_sorted_bus_only:
  "AS7343_get_sorted_spectral_channels ru data11 m = Some (ok, data', m') \<Longrightarrow> bus_only m m'"
  unfolding AS7343_get_sorted_spectral_channels_def
  by (auto split: prod.splits option.splits if_splits
      dest!: read_all_channels_bus_only intro: bus_only_refl)

lemma acquire_bus_only:
  "spectro_app_acquire ru meas m = Some (ok, meas', m') \<Longrightarrow> bus_only m m'"
  unfolding spectro_app_acquire_def
  by (auto split: prod.splits option.splits if_splits
      dest!: read_all_channels_bus_only get_sorted_bus_only intro: bus_only_trans bus_only_refl)


subsection \<open>Connection check\<close>

text \<open>
  On a bus that carries the five transactions of the call, the result tells whether the
  identity register holds the device ID, and the device is back in bank 0.
\<close>

lemma is_connected_fault_free:
  assumes "\<forall>k<5. \<not> nack m (txn m + k)"
  shows "fst (AS7343_is_connected m) = (regs m AS7343_REG_ID = AS7343_DEVICE_ID) \<and>
         reg_bank (snd (AS7343_is_connected m)) = AS7343_REG_BANK_0"
proof -
  have n: "wire m (txn m) = Acked" "wire m (Suc (txn m)) = Acked"
    "wire m (Suc (Suc (txn m))) = Acked" "wire m (Suc (Suc (Suc (txn m)))) = Acked"
    "wire m (Suc (Suc (Suc (Suc (txn m))))) = Acked"
    using assms[rule_format, of 0] assms[rule_format, of 1] assms[rule_format, of 2]
      assms[rule_format, of 3] assms[rule_format, of 4]
    by (simp_all add: eval_nat_numeral nack_def)
  show ?thesis
    by (simp add: AS7343_is_connected_def AS7343_set_reg_bank_def bus_defs reg_defs n
        reg_bank_def bit_simps)
qed

text \<open>
  C2. \<^verbatim>\<open>AS7343_is_connected\<close> is claimed to leave the device in bank 0 also when the
  identity read fails. On a bus where exactly that read is not acknowledged, the function
  returns \<open>False\<close> straight after the failed read: the device was in bank 0 before the
  call and is in bank 1 after it.
\<close>

theorem is_connected_failed_id_read_leaves_bank_1:
  "reg_bank id_read_fails = AS7343_REG_BANK_0 \<and>
   fst (AS7343_is_connected id_read_fails) = False \<and>
   txn (snd (AS7343_is_connected id_read_fails)) = 3 \<and>
   reg_bank (snd (AS7343_is_connected id_read_fails)) = AS7343_REG_BANK_1"
  by (simp add: AS7343_is_connected_def AS7343_set_reg_bank_def id_read_fails_def bench_def
      bus_defs reg_defs reg_bank_def)

subsection \<open>Gain\<close>

lemma gain_bits_low: "((v AND NOT 0x1F) OR (c AND 0x1F)) AND 0x1F = c AND (0x1F :: u8)"
  by (auto simp add: bit_eq_iff bit_simps)

lemma gain_bits_high: "((v AND NOT 0x1F) OR (c AND 0x1F)) AND NOT 0x1F = v AND NOT (0x1F :: u8)"
  by (auto simp add: bit_eq_iff bit_simps)

lemma gain_code_low: "gain_code g AND 0x1F = gain_code g"
  by (cases g) simp_all

lemma gain_field_low: "((v AND NOT 0x1F) OR (gain_code g AND 0x1F)) AND 0x1F = gain_code g"
  unfolding gain_bits_low by (rule gain_code_low)

text \<open>
  C7. When \<^verbatim>\<open>AS7343_set_gain\<close> succeeds, for each of the 13 gain levels and every
  previous content of the gain register CFG1, the low five bits of CFG1 are the gain code
  and its three high bits are those it had before the call.
\<close>

theorem set_gain_field:
  assumes "AS7343_set_gain g m = (True, m')"
  shows "regs m' AS7343_REG_CFG1 AND 0x1F = gain_code g \<and>
         regs m' AS7343_REG_CFG1 AND NOT 0x1F = regs m AS7343_REG_CFG1 AND NOT 0x1F"
proof -
  obtain ok1 m1 where b: "AS7343_set_reg_bank AS7343_REG_BANK_0 m = (ok1, m1)"
    by (cases "AS7343_set_reg_bank AS7343_REG_BANK_0 m")
  with assms have ok1: ok1
    by (auto simp: AS7343_set_gain_def split: if_splits)
  obtain r m2 where rd: "AS7343_i2c_read_reg AS7343_I2C_ADDRESS AS7343_REG_CFG1 m1 = (r, m2)"
    by (cases "AS7343_i2c_read_reg AS7343_I2C_ADDRESS AS7343_REG_CFG1 m1")
  with assms b ok1 obtain cfg1 where r: "r = Some cfg1"
    by (cases r) (auto simp: AS7343_set_gain_def)
  from assms b ok1 rd r
  have wr: "AS7343_i2c_write_reg AS7343_I2C_ADDRESS AS7343_REG_CFG1
              ((cfg1 AND NOT 0x1F) OR (gain_code g AND 0x1F)) m2 = (True, m')"
    by (auto simp: AS7343_set_gain_def split: prod.splits if_splits)
  have cfg1: "cfg1 = regs m AS7343_REG_CFG1" and m2: "regs m2 = regs m1"
    using read_reg_plain[OF rd[unfolded r] cfg1_plain]
      set_reg_bank_regs[OF b, of AS7343_REG_CFG1]
    by (simp_all add: reg_defs)
  have eq: "regs m' AS7343_REG_CFG1 =
      (regs m AS7343_REG_CFG1 AND NOT 0x1F) OR (gain_code g AND 0x1F)"
    unfolding write_reg_ok[OF wr] cfg1 by (simp only: fun_upd_same)
  show ?thesis
    unfolding eq by (rule conjI[OF gain_field_low gain_bits_high])
qed

theorem set_gain_field_witness:
  "AS7343_set_gain AS7343_GAIN_16X high_bits_set =
     (True, snd (AS7343_set_gain AS7343_GAIN_16X high_bits_set)) \<and>
   regs high_bits_set AS7343_REG_CFG1 = 0xFF \<and>
   regs (snd (AS7343_set_gain AS7343_GAIN_16X high_bits_set)) AS7343_REG_CFG1 = 0xE5 \<and>
   regs (snd (AS7343_set_gain AS7343_GAIN_16X high_bits_set)) AS7343_REG_CFG1 AND 0x1F =
     gain_code AS7343_GAIN_16X"
proof -
  have h: "AS7343_set_gain AS7343_GAIN_16X high_bits_set =
     (True, snd (AS7343_set_gain AS7343_GAIN_16X high_bits_set))"
    by (simp add: AS7343_set_gain_def AS7343_set_reg_bank_def high_bits_set_def bench_def
        bus_defs reg_defs)
  have v: "regs (snd (AS7343_set_gain AS7343_GAIN_16X high_bits_set)) AS7343_REG_CFG1 = 0xE5"
    by (simp add: AS7343_set_gain_def AS7343_set_reg_bank_def high_bits_set_def bench_def
        bus_defs reg_defs)
  have r: "regs high_bits_set AS7343_REG_CFG1 = 0xFF"
    by (simp add: high_bits_set_def bench_def)
  from set_gain_field[OF h] h v r show ?thesis by blast
qed

subsection \<open>Sorted spectral view\<close>

lemma list12:
  assumes "12 \<le> length out"
  shows "\<exists>x0 x1 x2 x3 x4 x5 x6 x7 x8 x9 x10 x11 rest.
    out = x0 # x1 # x2 # x3 # x4 # x5 # x6 # x7 # x8 # x9 # x10 # x11 # rest"
proof -
  have "Suc (Suc (Suc (Suc (Suc (Suc (Suc (Suc (Suc (Suc (Suc (Suc 0))))))))))) \<le> length out"
    using assms by simp
  then show ?thesis
    unfolding Suc_le_length_iff by blast
qed

lemma take12_updates:
  assumes "12 \<le> length out"
  shows "take 12 (out[0 := a0, 1 := a1, 2 := a2, 3 := a3, 4 := a4, 5 := a5, 6 := a6, 7 := a7,
                      8 := a8, 9 := a9, 10 := a10, 11 := a11]) =
         [a0, a1, a2, a3, a4, a5, a6, a7, a8, a9, a10, a11]"
proof -
  from list12[OF assms] obtain x0 x1 x2 x3 x4 x5 x6 x7 x8 x9 x10 x11 rest where
    "out = x0 # x1 # x2 # x3 # x4 # x5 # x6 # x7 # x8 # x9 # x10 # x11 # rest"
    by blast
  then show ?thesis
    by (simp add: list_update_Cons_numeral)
qed

lemma drop12_updates:
  "drop 12 (out[0 := a0, 1 := a1, 2 := a2, 3 := a3, 4 := a4, 5 := a5, 6 := a6, 7 := a7,
                8 := a8, 9 := a9, 10 := a10, 11 := a11]) = drop 12 out"
  by (simp add: drop_update_cancel)

lemma get_sorted_success:
  assumes "AS7343_get_sorted_spectral_channels ru (Some out) m = Some (True, res, m')"
  shows "\<exists>rw. AS7343_read_all_channels (Some ru) AS7343_NUM_CHANNELS m = Some (True, Some rw, m') \<and>
     res = Some (out[0 := rw ! 12, 1 := rw ! 6, 2 := rw ! 0, 3 := rw ! 7, 4 := rw ! 8,
                     5 := rw ! 15, 6 := rw ! 1, 7 := rw ! 2, 8 := rw ! 9, 9 := rw ! 13,
                     10 := rw ! 14, 11 := rw ! 3])"
  using assms unfolding AS7343_get_sorted_spectral_channels_def
  by (auto split: option.splits prod.splits if_splits)

text \<open>
  C3. When \<^verbatim>\<open>AS7343_get_sorted_spectral_channels\<close> succeeds, the twelve values it
  stores are, in this order, the channels 12, 6, 0, 7, 8, 15, 1, 2, 9, 13, 14, 3 of the
  18-channel reading it has just taken, and the caller's buffer is unchanged beyond them.
  On the sensor whose channel \<open>i\<close> reads \<open>i\<close> the result is
  12, 6, 0, 7, 8, 15, 1, 2, 9, 13, 14, 3.
\<close>

theorem get_sorted_fixed_permutation:
  assumes "AS7343_get_sorted_spectral_channels raw_uninit (Some out) m = Some (True, res, m')"
    and "12 \<le> length out"
  shows "\<exists>rw out'.
           AS7343_read_all_channels (Some raw_uninit) AS7343_NUM_CHANNELS m =
             Some (True, Some rw, m') \<and>
           res = Some out' \<and>
           take 12 out' = [rw ! 12, rw ! 6, rw ! 0, rw ! 7, rw ! 8, rw ! 15, rw ! 1, rw ! 2,
                           rw ! 9, rw ! 13, rw ! 14, rw ! 3] \<and>
           drop 12 out' = drop 12 out"
proof -
  from get_sorted_success[OF assms(1)] obtain rw where
    rd: "AS7343_read_all_channels (Some raw_uninit) AS7343_NUM_CHANNELS m = Some (True, Some rw, m')"
    and res: "res = Some (out[0 := rw ! 12, 1 := rw ! 6, 2 := rw ! 0, 3 := rw ! 7, 4 := rw ! 8,
                     5 := rw ! 15, 6 := rw ! 1, 7 := rw ! 2, 8 := rw ! 9, 9 := rw ! 13,
                     10 := rw ! 14, 11 := rw ! 3])"
    by blast
  let ?o = "out[0 := rw ! 12, 1 := rw ! 6, 2 := rw ! 0, 3 := rw ! 7, 4 := rw ! 8,
                5 := rw ! 15, 6 := rw ! 1, 7 := rw ! 2, 8 := rw ! 9, 9 := rw ! 13,
                10 := rw ! 14, 11 := rw ! 3]"
  have t: "take 12 ?o = [rw ! 12, rw ! 6, rw ! 0, rw ! 7, rw ! 8, rw ! 15, rw ! 1, rw ! 2,
                         rw ! 9, rw ! 13, rw ! 14, rw ! 3]"
    by (rule take12_updates[OF assms(2)])
  have d: "drop 12 ?o = drop 12 out"
    by (rule drop12_updates)
  from rd res t d show ?thesis
    by (intro exI[of _ rw] exI[of _ ?o] conjI)
qed

theorem get_sorted_fixed_permutation_witness:
  "AS7343_read_all_channels (Some stale_raw) AS7343_NUM_CHANNELS ramp_sensor =
     Some (True, Some [0, 1, 2, 3, 4, 5, 6, 7, 8, 9, 10, 11, 12, 13, 14, 15, 16, 17],
           after_read ramp_sensor) \<and>
   AS7343_get_sorted_spectral_channels stale_raw (Some (sorted stale_meas)) ramp_sensor =
     Some (True, Some [12, 6, 0, 7, 8, 15, 1, 2, 9, 13, 14, 3], after_read ramp_sensor) \<and>
   (\<exists>rw out'. AS7343_read_all_channels (Some stale_raw) AS7343_NUM_CHANNELS ramp_sensor =
             Some (True, Some rw, after_read ramp_sensor) \<and>
           Some [12, 6, 0, 7, 8, 15, 1, 2, 9, 13, 14, 3] = Some out' \<and>
           take 12 out' = [rw ! 12, rw ! 6, rw ! 0, rw ! 7, rw ! 8, rw ! 15, rw ! 1, rw ! 2,
                           rw ! 9, rw ! 13, rw ! 14, rw ! 3] \<and>
           drop 12 out' = drop 12 (sorted stale_meas))"
proof -
  have r: "AS7343_read_all_channels (Some stale_raw) AS7343_NUM_CHANNELS ramp_sensor =
     Some (True, Some [0, 1, 2, 3, 4, 5, 6, 7, 8, 9, 10, 11, 12, 13, 14, 15, 16, 17],
           after_read ramp_sensor)"
    by (simp add: sim_defs ramp_sensor_def stale_raw_def after_read_def)
  have h: "AS7343_get_sorted_spectral_channels stale_raw (Some (sorted stale_meas)) ramp_sensor =
     Some (True, Some [12, 6, 0, 7, 8, 15, 1, 2, 9, 13, 14, 3], after_read ramp_sensor)"
    by (simp add: sim_defs ramp_sensor_def stale_raw_def stale_meas_def after_read_def)
  have l: "12 \<le> length (sorted stale_meas)"
    by (simp add: stale_meas_def)
  note e = get_sorted_fixed_permutation[OF h l]
  show ?thesis
    by (rule conjI[OF r conjI[OF h e]])
qed


subsection \<open>One application cycle\<close>

lemma acquire_unknown_mode:
  "spectro_app_acquire stale_raw (Some stale_meas) unknown_mode =
     Some (True, Some ramp_meas, after_two_reads unknown_mode)"
  by (simp add: sim_defs spectro_app_acquire_def unknown_mode_def ramp_sensor_def stale_raw_def
      stale_meas_def ramp_meas_def after_two_reads_def)

lemma data_log_ramp_meas:
  "spectro_app_handle_data_log (Some ramp_meas) m =
     m\<lparr>serial_out := serial_out m @
        ''SORTED(405-855nm): 12,6,0,7,8,15,1,2,9,13,14,3'' @ [CHR 0x0D, CHR 0x0A]\<rparr>"
  by (simp add: ramp_meas_def spectro_app_handle_data_log_def print_sorted_loop.simps
      Serial_print_def Serial_println_def Serial_print_u16_def dec_digits.simps reg_defs)




text \<open>
  C10. When the acquisition succeeds and the mode is none of data-log, infer-local and
  infer-pc, \<^verbatim>\<open>spectro_app_run_once\<close> hands the measurement to the Data-Log handler.
\<close>

theorem run_once_unknown_mode_logs_data:
  assumes "spectro_app_acquire raw_uninit (Some meas_uninit) m = Some (True, meas', m1)"
    and "s_appMode m \<noteq> SPECTRO_APP_MODE_DATA_LOG"
    and "s_appMode m \<noteq> SPECTRO_APP_MODE_INFER_LOCAL"
    and "s_appMode m \<noteq> SPECTRO_APP_MODE_INFER_PC"
  shows "spectro_app_run_once meas_uninit raw_uninit m =
           Some (spectro_app_handle_data_log meas' m1)"
  using acquire_bus_only[OF assms(1)] assms
  by (simp add: spectro_app_run_once_def bus_only_def)

theorem run_once_unknown_mode_logs_data_witness:
  "spectro_app_acquire stale_raw (Some stale_meas) unknown_mode =
     Some (True, Some ramp_meas, after_two_reads unknown_mode) \<and>
   s_appMode unknown_mode = 7 \<and>
   spectro_app_run_once stale_meas stale_raw unknown_mode =
     Some ((after_two_reads unknown_mode)\<lparr>serial_out :=
        ''SORTED(405-855nm): 12,6,0,7,8,15,1,2,9,13,14,3'' @ [CHR 0x0D, CHR 0x0A]\<rparr>)"
proof -
  note h = acquire_unknown_mode
  have a: "s_appMode unknown_mode = 7"
    by (simp add: unknown_mode_def)
  have o: "serial_out (after_two_reads unknown_mode) = []"
    by (simp add: unknown_mode_def after_two_reads_def ramp_sensor_def bench_def)
  from run_once_unknown_mode_logs_data[OF h] h a o show ?thesis
    by (simp add: mode_defs data_log_ramp_meas)
qed

subsection \<open>Reading all channels\<close>

lemma i2c_read_ok:
  "\<not> read_fails m (txn m) 2 \<Longrightarrow>
   \<exists>bytes. AS7343_i2c_read AS7343_I2C_ADDRESS reg 2 m = (Some bytes, m\<lparr>txn := Suc (txn m)\<rparr>)"
  by (simp add: i2c_read_cases)

lemma i2c_read_failed:
  "read_fails m (txn m) 2 \<Longrightarrow>
   AS7343_i2c_read AS7343_I2C_ADDRESS reg 2 m =
     (None, m\<lparr>txn := Suc (txn m), serial_out := serial_out m @ read_error m (txn m) 2\<rparr>)"
  by (simp add: i2c_read_cases)

lemma read_fails_update [simp]:
  "read_fails (m\<lparr>txn := a\<rparr>) = read_fails m" "read_error (m\<lparr>txn := a\<rparr>) = read_error m"
  by (simp_all add: read_fails_def read_error_def fun_eq_iff)

lemma read_channels_loop_abort:
  assumes "i + d < AS7343_NUM_CHANNELS"
    and "\<forall>j<d. \<not> read_fails m (txn m + j) 2"
    and "read_fails m (txn m + d) 2"
  shows "\<exists>data'. read_channels_loop i reg data m =
             (False, data', m\<lparr>txn := txn m + d + 1,
                               serial_out := serial_out m @ read_error m (txn m + d) 2\<rparr>) \<and>
           drop (i + d) data' = drop (i + d) data \<and> length data' = length data"
  using assms
proof (induction d arbitrary: i reg data m)
  case 0
  then show ?case
    by (subst read_channels_loop.simps) (simp add: i2c_read_failed)
next
  case (Suc d)
  let ?m1 = "m\<lparr>txn := Suc (txn m)\<rparr>"
  have n0: "\<not> read_fails m (txn m) 2" using Suc.prems(2) by auto
  from i2c_read_ok[OF n0] obtain bytes where
    rd: "AS7343_i2c_read AS7343_I2C_ADDRESS reg 2 m = (Some bytes, ?m1)" by blast
  let ?d1 = "data[i := push_bit 8 (ucast (bytes ! 1)) OR ucast (bytes ! 0)]"
  have i: "i < AS7343_NUM_CHANNELS" using Suc.prems(1) by simp
  have step: "read_channels_loop i reg data m = read_channels_loop (i + 1) (reg + 2) ?d1 ?m1"
    by (subst read_channels_loop.simps) (simp add: rd i)
  have "\<exists>data'. read_channels_loop (i + 1) (reg + 2) ?d1 ?m1 =
            (False, data', ?m1\<lparr>txn := txn ?m1 + d + 1,
                                 serial_out := serial_out ?m1 @ read_error ?m1 (txn ?m1 + d) 2\<rparr>) \<and>
          drop (i + 1 + d) data' = drop (i + 1 + d) ?d1 \<and> length data' = length ?d1"
  proof (rule Suc.IH)
    show "i + 1 + d < AS7343_NUM_CHANNELS" using Suc.prems(1) by simp
    show "\<forall>j<d. \<not> read_fails ?m1 (txn ?m1 + j) 2"
      using Suc.prems(2) by (auto dest: spec[where x = "Suc j" for j])
    show "read_fails ?m1 (txn ?m1 + d) 2" using Suc.prems(3) by simp
  qed
  then obtain data' where
    r: "read_channels_loop (i + 1) (reg + 2) ?d1 ?m1 =
          (False, data', ?m1\<lparr>txn := txn ?m1 + d + 1,
                               serial_out := serial_out ?m1 @ read_error ?m1 (txn ?m1 + d) 2\<rparr>)"
    and dr: "drop (i + 1 + d) data' = drop (i + 1 + d) ?d1" and ln: "length data' = length ?d1"
    by blast
  have "drop (i + Suc d) data' = drop (i + Suc d) data"
    using dr by (simp add: drop_update_cancel)
  with r ln show ?case
    by (simp add: step)
qed

text \<open>
  C5. Let bank selection and the wait for data succeed. If burst \<open>i\<close> (counted from 0,
  \<open>i < 18\<close>) is the first that fails, by an unacknowledged address phase or by a short
  read, \<^verbatim>\<open>AS7343_read_all_channels\<close> returns \<open>False\<close>, issues no further bus
  transaction, and the slots \<open>i\<close> and above of the caller's buffer hold what they held
  before the call. Nothing is promised about the slots below \<open>i\<close>. Apart from the
  transaction count, the state is the one after the wait, with the bus adapter's error
  line on the serial port if the burst was a short read.
\<close>

theorem read_all_channels_aborts_at_failed_burst:
  assumes "AS7343_NUM_CHANNELS \<le> len"
    and "AS7343_set_reg_bank AS7343_REG_BANK_0 m = (True, m1)"
    and "AS7343_wait_data_ready m1 = Some (True, m2)"
    and "i < 18"
    and "\<forall>j<i. \<not> read_fails m2 (txn m2 + j) 2"
    and "read_fails m2 (txn m2 + i) 2"
  shows "\<exists>data'. AS7343_read_all_channels (Some data) len m =
                    Some (False, Some data',
                          m2\<lparr>txn := txn m2 + i + 1,
                             serial_out := serial_out m2 @ read_error m2 (txn m2 + i) 2\<rparr>) \<and>
                  drop i data' = drop i data \<and> length data' = length data"
proof -
  have "0 + i < AS7343_NUM_CHANNELS" using assms(4) by (simp add: reg_defs)
  from read_channels_loop_abort[OF this assms(5) assms(6), of AS7343_REG_DATA0_L data]
  obtain data' where
    l: "read_channels_loop 0 AS7343_REG_DATA0_L data m2 =
          (False, data', m2\<lparr>txn := txn m2 + i + 1,
                            serial_out := serial_out m2 @ read_error m2 (txn m2 + i) 2\<rparr>)"
    and d: "drop i data' = drop i data" and n: "length data' = length data"
    by auto
  have "AS7343_read_all_channels (Some data) len m =
      Some (False, Some data',
            m2\<lparr>txn := txn m2 + i + 1,
               serial_out := serial_out m2 @ read_error m2 (txn m2 + i) 2\<rparr>)"
    using assms(1,2,3) l by (simp add: AS7343_read_all_channels_def)
  with d n show ?thesis by blast
qed

theorem read_all_channels_aborts_at_failed_burst_witness:
  "AS7343_set_reg_bank AS7343_REG_BANK_0 tenth_burst_fails =
     (True, after_bank_select tenth_burst_fails) \<and>
   AS7343_wait_data_ready (after_bank_select tenth_burst_fails) =
     Some (True, after_wait tenth_burst_fails) \<and>
   read_fails (after_wait tenth_burst_fails) (txn (after_wait tenth_burst_fails) + 9) 2 \<and>
   AS7343_read_all_channels (Some stale_raw) 18 tenth_burst_fails =
     Some (False, Some [0, 1, 2, 3, 4, 5, 6, 7, 8, 7, 7, 7, 7, 7, 7, 7, 7, 7],
           (after_wait tenth_burst_fails)\<lparr>txn := 15, serial_out :=
              ''Error: Requested 2 bytes but received 1 bytes'' @ [CHR 0x0D, CHR 0x0A]\<rparr>) \<and>
   (\<exists>data'. AS7343_read_all_channels (Some stale_raw) 18 tenth_burst_fails =
        Some (False, Some data',
              (after_wait tenth_burst_fails)\<lparr>txn := txn (after_wait tenth_burst_fails) + 9 + 1,
                 serial_out := serial_out (after_wait tenth_burst_fails) @
                   read_error (after_wait tenth_burst_fails)
                     (txn (after_wait tenth_burst_fails) + 9) 2\<rparr>) \<and>
      drop 9 data' = drop 9 stale_raw \<and> length data' = length stale_raw)"
proof -
  have l: "AS7343_NUM_CHANNELS \<le> 18"
    by (simp add: reg_defs)
  have b: "AS7343_set_reg_bank AS7343_REG_BANK_0 tenth_burst_fails =
     (True, after_bank_select tenth_burst_fails)"
    by (simp add: sim_defs tenth_burst_fails_def ramp_sensor_def after_bank_select_def)
  have w: "AS7343_wait_data_ready (after_bank_select tenth_burst_fails) =
     Some (True, after_wait tenth_burst_fails)"
    by (simp add: sim_defs tenth_burst_fails_def ramp_sensor_def after_bank_select_def
        after_wait_def)
  have i: "(9::nat) < 18"
    by simp
  have ok: "\<forall>j<9. \<not> read_fails (after_wait tenth_burst_fails)
                       (txn (after_wait tenth_burst_fails) + j) 2"
    by (simp add: tenth_burst_fails_def after_wait_def read_fails_def)
  have f: "read_fails (after_wait tenth_burst_fails) (txn (after_wait tenth_burst_fails) + 9) 2"
    by (simp add: tenth_burst_fails_def after_wait_def read_fails_def)
  have e: "AS7343_read_all_channels (Some stale_raw) 18 tenth_burst_fails =
     Some (False, Some [0, 1, 2, 3, 4, 5, 6, 7, 8, 7, 7, 7, 7, 7, 7, 7, 7, 7],
           (after_wait tenth_burst_fails)\<lparr>txn := 15, serial_out :=
              ''Error: Requested 2 bytes but received 1 bytes'' @ [CHR 0x0D, CHR 0x0A]\<rparr>)"
    by (simp add: sim_defs tenth_burst_fails_def ramp_sensor_def stale_raw_def after_wait_def)
  note t = read_all_channels_aborts_at_failed_burst[OF l b w i ok f, of stale_raw]
  show ?thesis
    by (rule conjI[OF b conjI[OF w conjI[OF f conjI[OF e t]]]])
qed

subsection \<open>Precision presets\<close>

lemma set_integration_time_ok:
  assumes "\<forall>k<5. \<not> nack m (txn m + k)"
  shows "AS7343_set_integration_time a s m =
     (True, m\<lparr>txn := txn m + 5,
              regs := (regs m)(AS7343_REG_CFG0 := regs m AS7343_REG_CFG0 AND NOT (push_bit 4 1),
                               AS7343_REG_ATIME := a,
                               AS7343_REG_ASTEP_L := ucast (s AND 0xFF),
                               AS7343_REG_ASTEP_H := ucast (drop_bit 8 s AND 0xFF)),
              wlog := wlog m @ [(AS7343_REG_CFG0, regs m AS7343_REG_CFG0 AND NOT (push_bit 4 1)),
                                (AS7343_REG_ATIME, a),
                                (AS7343_REG_ASTEP_L, ucast (s AND 0xFF)),
                                (AS7343_REG_ASTEP_H, ucast (drop_bit 8 s AND 0xFF))]\<rparr>)"
proof -
  have n: "wire m (txn m) = Acked" "wire m (Suc (txn m)) = Acked"
    "wire m (Suc (Suc (txn m))) = Acked" "wire m (Suc (Suc (Suc (txn m)))) = Acked"
    "wire m (Suc (Suc (Suc (Suc (txn m))))) = Acked"
    using assms[rule_format, of 0] assms[rule_format, of 1] assms[rule_format, of 2]
      assms[rule_format, of 3] assms[rule_format, of 4]
    by (simp_all add: eval_nat_numeral nack_def)
  show ?thesis
    by (simp add: AS7343_set_integration_time_def AS7343_set_reg_bank_def bus_defs reg_defs n)
qed

text \<open>
  C4, as amended. On a bus that carries the five transactions of the call,
  \<^verbatim>\<open>spectro_app_set_precision_mode\<close> leaves exactly the programmed state of the table
  row: Low is ATIME \<open>0x00\<close>, ASTEP 999, timeout 50 ms; Medium is ATIME \<open>0x01\<close>, ASTEP
  20000, timeout 500 ms; High is ATIME \<open>0x00\<close>, ASTEP 65534, timeout 800 ms. ASTEP goes
  as its low byte to ASTEP\_L, then as its high byte to ASTEP\_H. Besides these three
  registers only the bank bit of CFG0 is written.
\<close>

theorem set_precision_mode_programs_table:
  assumes "\<forall>k<5. \<not> nack m (txn m + k)"
  shows "spectro_app_set_precision_mode SPECTRO_PRECISION_LOW m =
           programmed SPECTRO_PRECISION_LOW 0x00 999 50 m \<and>
         spectro_app_set_precision_mode SPECTRO_PRECISION_MEDIUM m =
           programmed SPECTRO_PRECISION_MEDIUM 0x01 20000 500 m \<and>
         spectro_app_set_precision_mode SPECTRO_PRECISION_HIGH m =
           programmed SPECTRO_PRECISION_HIGH 0x00 65534 800 m"
proof -
  have a: "\<forall>k<5. \<not> nack (m\<lparr>s_precMode := p\<rparr>) (txn (m\<lparr>s_precMode := p\<rparr>) + k)" for p
    using assms by simp
  have b: "(999::u8) = 231" "(20000::u8) = 32" "(65534::u8) = 254"
    by simp_all
  show ?thesis
    by (simp add: spectro_app_set_precision_mode_def set_integration_time_ok[OF a]
        AS7343_set_data_ready_timeout_def programmed_def mode_defs b)
qed

theorem set_precision_mode_programs_table_witness:
  "spectro_app_set_precision_mode SPECTRO_PRECISION_LOW bench =
     programmed SPECTRO_PRECISION_LOW 0x00 999 50 bench \<and>
   wlog (spectro_app_set_precision_mode SPECTRO_PRECISION_LOW bench) =
     [(0xBF, 0), (0x81, 0x00), (0xD4, 0xE7), (0xD5, 0x03)] \<and>
   wlog (spectro_app_set_precision_mode SPECTRO_PRECISION_MEDIUM bench) =
     [(0xBF, 0), (0x81, 0x01), (0xD4, 0x20), (0xD5, 0x4E)] \<and>
   wlog (spectro_app_set_precision_mode SPECTRO_PRECISION_HIGH bench) =
     [(0xBF, 0), (0x81, 0x00), (0xD4, 0xFE), (0xD5, 0xFF)] \<and>
   s_dataReadyTimeoutMs (spectro_app_set_precision_mode SPECTRO_PRECISION_LOW bench) = 50 \<and>
   s_dataReadyTimeoutMs (spectro_app_set_precision_mode SPECTRO_PRECISION_MEDIUM bench) = 500 \<and>
   s_dataReadyTimeoutMs (spectro_app_set_precision_mode SPECTRO_PRECISION_HIGH bench) = 800"
proof -
  have h: "\<forall>k<5. \<not> nack bench (txn bench + k)"
    by (simp add: bench_def nack_def)
  from set_precision_mode_programs_table[OF h] show ?thesis
    by (simp add: programmed_def bench_def reg_defs)
qed

text \<open>
  C4, as stated, makes no exception for a failing bus. The result of
  \<^verbatim>\<open>AS7343_set_integration_time\<close> is discarded: when the write of ATIME is not
  acknowledged, the Low preset stores the timeout 50 and the precision mode while
  ATIME, ASTEP\_L and ASTEP\_H keep their previous content \<open>0xAA\<close>; the only write is
  the bank selection.
\<close>

theorem set_precision_mode_on_refused_write:
  "s_dataReadyTimeoutMs (spectro_app_set_precision_mode SPECTRO_PRECISION_LOW atime_write_refused) = 50 \<and>
   s_precMode (spectro_app_set_precision_mode SPECTRO_PRECISION_LOW atime_write_refused) =
     SPECTRO_PRECISION_LOW \<and>
   regs (spectro_app_set_precision_mode SPECTRO_PRECISION_LOW atime_write_refused)
     AS7343_REG_ATIME = 0xAA \<and>
   regs (spectro_app_set_precision_mode SPECTRO_PRECISION_LOW atime_write_refused)
     AS7343_REG_ASTEP_L = 0xAA \<and>
   regs (spectro_app_set_precision_mode SPECTRO_PRECISION_LOW atime_write_refused)
     AS7343_REG_ASTEP_H = 0xAA \<and>
   wlog (spectro_app_set_precision_mode SPECTRO_PRECISION_LOW atime_write_refused) =
     [(AS7343_REG_CFG0, 0xAA)]"
  by (simp add: spectro_app_set_precision_mode_def AS7343_set_integration_time_def
      AS7343_set_reg_bank_def AS7343_set_data_ready_timeout_def atime_write_refused_def
      bench_def bus_defs reg_defs mode_defs)

text \<open>
  Whatever the bus does, the call writes to no register other than CFG0, ATIME, ASTEP\_L
  and ASTEP\_H.
\<close>

lemma set_precision_mode_frame:
  "r \<notin> {AS7343_REG_CFG0, AS7343_REG_ATIME, AS7343_REG_ASTEP_L, AS7343_REG_ASTEP_H} \<Longrightarrow>
   regs (spectro_app_set_precision_mode prec m) r = regs m r"
  by (simp add: spectro_app_set_precision_mode_def AS7343_set_integration_time_def
      AS7343_set_reg_bank_def AS7343_set_data_ready_timeout_def bus_defs reg_defs
      split: prod.splits option.splits)

subsection \<open>Acquisition\<close>

text \<open>
  A successful acquisition consists of two successful reads of all channels; the raw
  reading stored is the first, the sorted view stored is derived from the second.
\<close>

lemma acquire_success:
  assumes "spectro_app_acquire raw_uninit (Some ms) m = Some (True, meas', m')"
  shows "\<exists>first second m1.
           AS7343_read_all_channels (Some (raw ms)) AS7343_NUM_CHANNELS m =
             Some (True, Some first, m1) \<and>
           AS7343_read_all_channels (Some raw_uninit) AS7343_NUM_CHANNELS m1 =
             Some (True, Some second, m') \<and>
           meas' = Some (ms\<lparr>raw := first,
                     sorted := (sorted ms)[0 := second ! 12, 1 := second ! 6, 2 := second ! 0,
                       3 := second ! 7, 4 := second ! 8, 5 := second ! 15, 6 := second ! 1,
                       7 := second ! 2, 8 := second ! 9, 9 := second ! 13, 10 := second ! 14,
                       11 := second ! 3]\<rparr>)"
proof -
  from assms obtain first m1 where
    r1: "AS7343_read_all_channels (Some (raw ms)) AS7343_NUM_CHANNELS m = Some (True, Some first, m1)"
    unfolding spectro_app_acquire_def
    by (auto split: option.splits prod.splits if_splits)
  with assms obtain srt where
    g: "AS7343_get_sorted_spectral_channels raw_uninit (Some (sorted ms)) m1 = Some (True, Some srt, m')"
    and me: "meas' = Some (ms\<lparr>raw := first, sorted := srt\<rparr>)"
    unfolding spectro_app_acquire_def
    by (auto split: option.splits prod.splits if_splits)
  from get_sorted_success[OF g] r1 me show ?thesis
    by auto
qed


text \<open>
  C1. The sorted view of a measurement is claimed to be the fixed permutation of the raw
  reading stored in the same measurement. \<^verbatim>\<open>spectro_app_acquire\<close> reads the sensor
  twice: once into \<open>raw\<close>, and once more inside
  \<^verbatim>\<open>AS7343_get_sorted_spectral_channels\<close>, which derives \<open>sorted\<close> from that
  second reading. On a sensor that completes a new measurement between the two reads the
  call succeeds and the stored sorted view is not the permutation of the stored raw
  reading.
\<close>

theorem acquire_mixes_two_readings:
  "spectro_app_acquire stale_raw (Some stale_meas) drifting_sensor =
     Some (True,
           Some \<lparr>raw = [0, 0, 0, 0, 0, 0, 0, 0, 0, 0, 0, 0, 0, 0, 0, 0, 0, 0],
                 sorted = [1, 0, 0, 0, 0, 0, 0, 0, 0, 0, 0, 0]\<rparr>,
           after_two_reads drifting_sensor) \<and>
   spec_sorted_view [0, 0, 0, 0, 0, 0, 0, 0, 0, 0, 0, 0, 0, 0, 0, 0, 0, 0] \<noteq>
     [1, 0, 0, 0, 0, 0, 0, 0, 0, 0, 0, 0]"
  by (simp add: sim_defs spectro_app_acquire_def drifting_sensor_def stale_raw_def
      stale_meas_def after_two_reads_def spec_sorted_view_def)

subsection \<open>Waiting for data\<close>

lemma status2_driven: "hw_driven AS7343_REG_STATUS2"
  by (simp add: hw_driven_def)

lemma read_status2:
  "\<not> nack m (txn m) \<Longrightarrow>
   AS7343_i2c_read_reg AS7343_I2C_ADDRESS AS7343_REG_STATUS2 m =
     (Some (sense m (txn m) AS7343_REG_STATUS2), m\<lparr>txn := Suc (txn m)\<rparr>)"
  by (simp add: i2c_read_reg_cases read_fails_def nack_def reg_value_def status2_driven)

lemma wait_loop_step:
  assumes "\<not> nack m (txn m)" and "\<not> poll_ready m (txn m)"
    and "(ucast (clock m (ticks m) - start) :: u16) < s_dataReadyTimeoutMs m"
  shows "wait_data_ready_loop start m =
         wait_data_ready_loop start (m\<lparr>txn := Suc (txn m), ticks := Suc (ticks m)\<rparr>)"
  using assms
  by (subst wait_data_ready_loop.simps) (simp add: read_status2 poll_ready_def millis_def)

lemma wait_loop_ready:
  assumes "\<forall>j\<le>k. \<not> nack m (txn m + j)"
    and "\<forall>j<k. \<not> poll_ready m (txn m + j)"
    and "\<forall>j<k. (ucast (clock m (ticks m + j) - start) :: u16) < s_dataReadyTimeoutMs m"
    and "poll_ready m (txn m + k)"
  shows "wait_data_ready_loop start m = Some (True, m\<lparr>txn := txn m + k + 1, ticks := ticks m + k\<rparr>)"
  using assms
proof (induction k arbitrary: m)
  case 0
  then show ?case
    by (subst wait_data_ready_loop.simps) (simp add: read_status2 poll_ready_def)
next
  case (Suc k)
  let ?m2 = "m\<lparr>txn := Suc (txn m), ticks := Suc (ticks m)\<rparr>"
  have n0: "\<not> nack m (txn m)" using Suc.prems(1) by auto
  have r0: "\<not> poll_ready m (txn m)" using Suc.prems(2)[rule_format, of 0] by simp
  have e0: "(ucast (clock m (ticks m) - start) :: u16) < s_dataReadyTimeoutMs m"
    using Suc.prems(3)[rule_format, of 0] by simp
  note step = wait_loop_step[OF n0 r0 e0]
  have "wait_data_ready_loop start ?m2 =
      Some (True, ?m2\<lparr>txn := txn ?m2 + k + 1, ticks := ticks ?m2 + k\<rparr>)"
  proof (rule Suc.IH)
    show "\<forall>j\<le>k. \<not> nack ?m2 (txn ?m2 + j)"
      using Suc.prems(1) by (auto dest: spec[where x = "Suc j" for j])
    show "\<forall>j<k. \<not> poll_ready ?m2 (txn ?m2 + j)"
      using Suc.prems(2) by (auto simp: poll_ready_def dest: spec[where x = "Suc j" for j])
    show "\<forall>j<k. (ucast (clock ?m2 (ticks ?m2 + j) - start) :: u16) < s_dataReadyTimeoutMs ?m2"
      using Suc.prems(3) by (auto dest: spec[where x = "Suc j" for j])
    show "poll_ready ?m2 (txn ?m2 + k)"
      using Suc.prems(4) by (simp add: poll_ready_def)
  qed
  then show ?case by (simp add: step)
qed

lemma wait_loop_timeout:
  assumes "\<forall>j\<le>k. \<not> nack m (txn m + j)"
    and "\<forall>j\<le>k. \<not> poll_ready m (txn m + j)"
    and "\<forall>j<k. (ucast (clock m (ticks m + j) - start) :: u16) < s_dataReadyTimeoutMs m"
    and "\<not> (ucast (clock m (ticks m + k) - start) :: u16) < s_dataReadyTimeoutMs m"
  shows "wait_data_ready_loop start m =
           Some (False, m\<lparr>txn := txn m + k + 1, ticks := ticks m + k + 1\<rparr>)"
  using assms
proof (induction k arbitrary: m)
  case 0
  then show ?case
    by (subst wait_data_ready_loop.simps) (simp add: read_status2 poll_ready_def millis_def)
next
  case (Suc k)
  let ?m2 = "m\<lparr>txn := Suc (txn m), ticks := Suc (ticks m)\<rparr>"
  have n0: "\<not> nack m (txn m)" using Suc.prems(1) by auto
  have r0: "\<not> poll_ready m (txn m)" using Suc.prems(2)[rule_format, of 0] by simp
  have e0: "(ucast (clock m (ticks m) - start) :: u16) < s_dataReadyTimeoutMs m"
    using Suc.prems(3)[rule_format, of 0] by simp
  note step = wait_loop_step[OF n0 r0 e0]
  have "wait_data_ready_loop start ?m2 =
      Some (False, ?m2\<lparr>txn := txn ?m2 + k + 1, ticks := ticks ?m2 + k + 1\<rparr>)"
  proof (rule Suc.IH)
    show "\<forall>j\<le>k. \<not> nack ?m2 (txn ?m2 + j)"
      using Suc.prems(1) by (auto dest: spec[where x = "Suc j" for j])
    show "\<forall>j\<le>k. \<not> poll_ready ?m2 (txn ?m2 + j)"
      using Suc.prems(2) by (auto simp: poll_ready_def dest: spec[where x = "Suc j" for j])
    show "\<forall>j<k. (ucast (clock ?m2 (ticks ?m2 + j) - start) :: u16) < s_dataReadyTimeoutMs ?m2"
      using Suc.prems(3) by (auto dest: spec[where x = "Suc j" for j])
    show "\<not> (ucast (clock ?m2 (ticks ?m2 + k) - start) :: u16) < s_dataReadyTimeoutMs ?m2"
      using Suc.prems(4) by simp
  qed
  then show ?case by (simp add: step)
qed

text \<open>The state in which the polling loop is entered.\<close>

lemma wait_data_ready_enter:
  assumes "\<not> nack m (txn m)" and "\<not> nack m (Suc (txn m))"
  shows "AS7343_wait_data_ready m =
     wait_data_ready_loop (clock m (ticks m))
       (m\<lparr>ticks := Suc (ticks m), txn := Suc (Suc (txn m)),
          regs := (regs m)(AS7343_REG_CFG0 := regs m AS7343_REG_CFG0 AND NOT (push_bit 4 1)),
          wlog := wlog m @ [(AS7343_REG_CFG0, regs m AS7343_REG_CFG0 AND NOT (push_bit 4 1))]\<rparr>)"
  using assms
  by (simp add: AS7343_wait_data_ready_def millis_def AS7343_set_reg_bank_def bus_defs reg_defs)

text \<open>
  C6, as amended. Let the bank selection and the status reads succeed, and let the first
  \<open>k\<close> polls find AVALID clear, each followed by a clock reading whose distance from the
  start, narrowed to 16 bits, is below the timeout. Then: if poll \<open>k\<close> finds AVALID
  set, \<^verbatim>\<open>AS7343_wait_data_ready\<close> returns \<open>True\<close> right after that poll; if poll
  \<open>k\<close> finds it clear and the next clock reading is not below the timeout (again
  narrowed to 16 bits), it returns \<open>False\<close> after that clock reading.
\<close>

theorem wait_data_ready_polls_until_ready_or_timeout:
  assumes "\<forall>j<k + 3. \<not> nack m (txn m + j)"
    and "\<forall>j<k. \<not> poll_ready m (txn m + 2 + j)"
    and "\<forall>j<k. elapsed16 m (ticks m) (ticks m + 1 + j) < s_dataReadyTimeoutMs m"
  shows "(poll_ready m (txn m + 2 + k) \<longrightarrow>
            (\<exists>m'. AS7343_wait_data_ready m = Some (True, m') \<and>
                  txn m' = txn m + 3 + k \<and> ticks m' = ticks m + 1 + k)) \<and>
         (\<not> poll_ready m (txn m + 2 + k) \<and>
          \<not> elapsed16 m (ticks m) (ticks m + 1 + k) < s_dataReadyTimeoutMs m \<longrightarrow>
            (\<exists>m'. AS7343_wait_data_ready m = Some (False, m') \<and>
                  txn m' = txn m + 3 + k \<and> ticks m' = ticks m + 2 + k))"
proof -
  let ?m1 = "m\<lparr>ticks := Suc (ticks m), txn := Suc (Suc (txn m)),
          regs := (regs m)(AS7343_REG_CFG0 := regs m AS7343_REG_CFG0 AND NOT (push_bit 4 1)),
          wlog := wlog m @ [(AS7343_REG_CFG0, regs m AS7343_REG_CFG0 AND NOT (push_bit 4 1))]\<rparr>"
  let ?start = "clock m (ticks m)"
  have n0: "\<not> nack m (txn m)" using assms(1)[rule_format, of 0] by simp
  have n1: "\<not> nack m (Suc (txn m))" using assms(1)[rule_format, of 1] by simp
  note enter = wait_data_ready_enter[OF n0 n1]
  have bus: "\<forall>j\<le>k. \<not> nack ?m1 (txn ?m1 + j)"
  proof (intro allI impI)
    fix j assume "j \<le> k"
    then have "j + 2 < k + 3" by simp
    from assms(1)[rule_format, OF this] show "\<not> nack ?m1 (txn ?m1 + j)"
      by (simp add: add.commute add.left_commute)
  qed
  have nr: "\<forall>j<k. \<not> poll_ready ?m1 (txn ?m1 + j)"
    using assms(2) by (simp add: poll_ready_def)
  have el: "\<forall>j<k. (ucast (clock ?m1 (ticks ?m1 + j) - ?start) :: u16) < s_dataReadyTimeoutMs ?m1"
    using assms(3) by (simp add: elapsed16_def)
  show ?thesis
  proof (intro conjI impI)
    assume "poll_ready m (txn m + 2 + k)"
    then have "poll_ready ?m1 (txn ?m1 + k)" by (simp add: poll_ready_def)
    from wait_loop_ready[OF bus nr el this]
    show "\<exists>m'. AS7343_wait_data_ready m = Some (True, m') \<and>
                  txn m' = txn m + 3 + k \<and> ticks m' = ticks m + 1 + k"
      by (simp add: enter)
  next
    assume a: "\<not> poll_ready m (txn m + 2 + k) \<and>
          \<not> elapsed16 m (ticks m) (ticks m + 1 + k) < s_dataReadyTimeoutMs m"
    have nr': "\<forall>j\<le>k. \<not> poll_ready ?m1 (txn ?m1 + j)"
    proof (intro allI impI)
      fix j assume "j \<le> k"
      then consider "j < k" | "j = k" by linarith
      then show "\<not> poll_ready ?m1 (txn ?m1 + j)"
        using nr a by cases (auto simp: poll_ready_def)
    qed
    have to: "\<not> (ucast (clock ?m1 (ticks ?m1 + k) - ?start) :: u16) < s_dataReadyTimeoutMs ?m1"
      using a by (simp add: elapsed16_def)
    from wait_loop_timeout[OF bus nr' el to]
    show "\<exists>m'. AS7343_wait_data_ready m = Some (False, m') \<and>
                  txn m' = txn m + 3 + k \<and> ticks m' = ticks m + 2 + k"
      by (simp add: enter)
  qed
qed

theorem wait_data_ready_polls_until_ready_or_timeout_witness:
  "poll_ready third_poll_ready (txn third_poll_ready + 2 + 2) \<and>
   (\<exists>m'. AS7343_wait_data_ready third_poll_ready = Some (True, m') \<and>
         txn m' = txn third_poll_ready + 3 + 2 \<and> ticks m' = ticks third_poll_ready + 1 + 2) \<and>
   \<not> poll_ready never_ready (txn never_ready + 2 + 1) \<and>
   \<not> elapsed16 never_ready (ticks never_ready) (ticks never_ready + 1 + 1)
       < s_dataReadyTimeoutMs never_ready \<and>
   (\<exists>m'. AS7343_wait_data_ready never_ready = Some (False, m') \<and>
         txn m' = txn never_ready + 3 + 1 \<and> ticks m' = ticks never_ready + 2 + 1)"
proof -
  have a1: "\<forall>j<2 + 3. \<not> nack third_poll_ready (txn third_poll_ready + j)"
    by (simp add: third_poll_ready_def bench_def nack_def)
  have a2: "\<forall>j<2. \<not> poll_ready third_poll_ready (txn third_poll_ready + 2 + j)"
    by (auto simp: third_poll_ready_def bench_def poll_ready_def reg_defs dest!: less_2_cases)
  have a3: "\<forall>j<2. elapsed16 third_poll_ready (ticks third_poll_ready)
                    (ticks third_poll_ready + 1 + j) < s_dataReadyTimeoutMs third_poll_ready"
    by (auto simp: third_poll_ready_def bench_def elapsed16_def dest!: less_2_cases)
  have a4: "poll_ready third_poll_ready (txn third_poll_ready + 2 + 2)"
    by (simp add: third_poll_ready_def bench_def poll_ready_def reg_defs)
  have b1: "\<forall>j<1 + 3. \<not> nack never_ready (txn never_ready + j)"
    by (simp add: never_ready_def bench_def nack_def)
  have b2: "\<forall>j<1. \<not> poll_ready never_ready (txn never_ready + 2 + j)"
    by (simp add: never_ready_def bench_def poll_ready_def reg_defs)
  have b3: "\<forall>j<1. elapsed16 never_ready (ticks never_ready)
                    (ticks never_ready + 1 + j) < s_dataReadyTimeoutMs never_ready"
    by (simp add: never_ready_def bench_def elapsed16_def)
  have b4: "\<not> poll_ready never_ready (txn never_ready + 2 + 1)"
    by (simp add: never_ready_def bench_def poll_ready_def reg_defs)
  have b5: "\<not> elapsed16 never_ready (ticks never_ready) (ticks never_ready + 1 + 1)
       < s_dataReadyTimeoutMs never_ready"
    by (simp add: never_ready_def bench_def elapsed16_def)
  from wait_data_ready_polls_until_ready_or_timeout[OF a1 a2 a3]
    wait_data_ready_polls_until_ready_or_timeout[OF b1 b2 b3] a4 b4 b5
  show ?thesis by blast
qed

text \<open>
  C6, as stated, measures the timeout window by the unsigned difference of the clock
  values. With a timeout of 50 ms, a first poll that finds no data and a clock that then
  reads 65536 ms past the start, no poll inside the window has seen AVALID set; the loop
  condition narrows 65536 to 0, polls again and returns \<open>True\<close>.
\<close>

theorem wait_data_ready_true_after_window:
  "s_dataReadyTimeoutMs late_ready = 50 \<and>
   \<not> poll_ready late_ready 2 \<and>
   elapsed32 late_ready 0 1 = 65536 \<and>
   poll_ready late_ready 3 \<and>
   AS7343_wait_data_ready late_ready =
     Some (True, late_ready\<lparr>txn := 4, ticks := 2, regs := (\<lambda>r. 0)(0xBF := 0),
                             wlog := [(0xBF, 0)]\<rparr>)"
  by (simp add: sim_defs late_ready_def poll_ready_def elapsed32_def)


subsection \<open>Mode handlers\<close>

lemma list_of_length_12:
  assumes "length xs = 12"
  shows "\<exists>x0 x1 x2 x3 x4 x5 x6 x7 x8 x9 x10 x11.
    xs = [x0, x1, x2, x3, x4, x5, x6, x7, x8, x9, x10, x11]"
proof -
  have "length xs = Suc (Suc (Suc (Suc (Suc (Suc (Suc (Suc (Suc (Suc (Suc (Suc 0)))))))))))"
    using assms by simp
  then show ?thesis
    unfolding length_Suc_conv by auto
qed

lemma print_sorted_loop_csv:
  assumes "length (sorted ms) = 12"
  shows "Serial_println [] (print_sorted_loop 0 ms m) =
         m\<lparr>serial_out := serial_out m @ csv_line (sorted ms)\<rparr>"
proof -
  from list_of_length_12[OF assms] obtain x0 x1 x2 x3 x4 x5 x6 x7 x8 x9 x10 x11 where
    "sorted ms = [x0, x1, x2, x3, x4, x5, x6, x7, x8, x9, x10, x11]"
    by blast
  then show ?thesis
    by (simp add: print_sorted_loop.simps reg_defs Serial_print_def Serial_print_u16_def
        Serial_println_def csv_line_def)
qed

text \<open>
  C8. For a measurement with its 12 sorted values, the Data-Log handler appends to the
  serial output exactly the line \<open>SORTED(405-855nm): \<close> followed by the 12 values
  in decimal, joined by commas with no trailing comma, and changes nothing else; the
  Infer-PC handler appends exactly the line \<open>MEAS,\<close> followed by the same joined
  values, and after it the response line if and only if a non-blank inbound line is
  pending. For the values 5, 10, ..., 60 the lines are
  \<open>SORTED(405-855nm): 5,10,15,20,25,30,35,40,45,50,55,60\<close> and
  \<open>MEAS,5,10,15,20,25,30,35,40,45,50,55,60\<close>.
\<close>

theorem handlers_emit_csv_lines:
  assumes "length (sorted ms) = 12"
  shows "spectro_app_handle_data_log (Some ms) m =
           m\<lparr>serial_out := serial_out m @ ''SORTED(405-855nm): '' @ csv_line (sorted ms)\<rparr> \<and>
         serial_out (spectro_app_handle_infer_pc (Some ms) m) =
           serial_out m @ ''MEAS,'' @ csv_line (sorted ms) @ pc_response (serial_in m)"
proof (intro conjI)
  show "spectro_app_handle_data_log (Some ms) m =
           m\<lparr>serial_out := serial_out m @ ''SORTED(405-855nm): '' @ csv_line (sorted ms)\<rparr>"
    by (simp add: spectro_app_handle_data_log_def print_sorted_loop_csv[OF assms] Serial_print_def)
  let ?m1 = "m\<lparr>serial_out := serial_out m @ ''MEAS,'' @ csv_line (sorted ms)\<rparr>"
  have m1: "Serial_println [] (print_sorted_loop 0 ms (Serial_print ''MEAS,'' m)) = ?m1"
    by (simp add: print_sorted_loop_csv[OF assms] Serial_print_def)
  have u: "spectro_app_handle_infer_pc (Some ms) m =
      (if Serial_available ?m1 then
         (case Serial_readStringUntil (CHR 0x0A) ?m1 of
            (line, m2) \<Rightarrow>
              if length (String_trim line) > 0
              then Serial_println (String_trim line)
                     (Serial_print ''[spectro_app] PC response: '' m2)
              else m2)
       else ?m1)"
    unfolding spectro_app_handle_infer_pc_def option.case m1 ..
  have "serial_out (spectro_app_handle_infer_pc (Some ms) m) =
          serial_out ?m1 @ pc_response (serial_in m)"
    unfolding u
    by (simp add: Serial_available_def Serial_readStringUntil_def Serial_print_def
        Serial_println_def pc_response_def)
  then show "serial_out (spectro_app_handle_infer_pc (Some ms) m) =
           serial_out m @ ''MEAS,'' @ csv_line (sorted ms) @ pc_response (serial_in m)"
    by simp
qed

theorem handlers_emit_csv_lines_witness:
  "length (sorted example_meas) = 12 \<and>
   sorted example_meas = [5, 10, 15, 20, 25, 30, 35, 40, 45, 50, 55, 60] \<and>
   serial_out (spectro_app_handle_data_log (Some example_meas) bench) =
     ''SORTED(405-855nm): 5,10,15,20,25,30,35,40,45,50,55,60'' @ [CHR 0x0D, CHR 0x0A] \<and>
   serial_out (spectro_app_handle_infer_pc (Some example_meas) bench) =
     ''MEAS,5,10,15,20,25,30,35,40,45,50,55,60'' @ [CHR 0x0D, CHR 0x0A]"
proof -
  have l: "length (sorted example_meas) = 12"
    by (simp add: example_meas_def)
  have c: "csv_line (sorted example_meas) =
      ''5,10,15,20,25,30,35,40,45,50,55,60'' @ [CHR 0x0D, CHR 0x0A]"
    by (simp add: example_meas_def csv_line_def dec_digits.simps)
  have b: "serial_out bench = []" "pc_response (serial_in bench) = []"
    by (simp_all add: bench_def pc_response_def)
  from handlers_emit_csv_lines[OF l, of bench] l c b show ?thesis
    by (simp add: example_meas_def)
qed


end
